theory Spec2Isabelle
  imports Main
begin

section \<open>Values of the editor API\<close>

text \<open>
  The provider in \<^verbatim>\<open>gitCodeLensProvider.ts\<close> works on values of the editor API
  (positions, ranges, documents, symbols). They are modelled by what the provider reads
  from them.
\<close>

datatype error =
    IllegalLine        \<comment> \<open>\<^verbatim>\<open>document.lineAt\<close> on a line the document does not have\<close>
  | IllegalArgument    \<comment> \<open>\<^verbatim>\<open>new Position\<close> with a negative character\<close>
  | TypeError          \<comment> \<open>a property read on \<^verbatim>\<open>undefined\<close>\<close>
  | Rejected           \<comment> \<open>\<^verbatim>\<open>Promise.reject(undefined)\<close>\<close>
  | NoSuchFunction     \<comment> \<open>a lens whose blame function is not in the store at hand\<close>

datatype SymbolKind =
    SymbolKind_File | SymbolKind_Module | SymbolKind_Namespace | SymbolKind_Package
  | SymbolKind_Class | SymbolKind_Method | SymbolKind_Property | SymbolKind_Field
  | SymbolKind_Constructor | SymbolKind_Enum | SymbolKind_Interface | SymbolKind_Function
  | SymbolKind_Variable | SymbolKind_Constant | SymbolKind_String | SymbolKind_Number
  | SymbolKind_Boolean | SymbolKind_Array | SymbolKind_Object | SymbolKind_Key
  | SymbolKind_Null | SymbolKind_EnumMember | SymbolKind_Struct | SymbolKind_Event
  | SymbolKind_Operator | SymbolKind_TypeParameter

text \<open>\<^verbatim>\<open>SymbolKind[kind]\<close>: the name of the enumeration member.\<close>

fun SymbolKind_name :: "SymbolKind \<Rightarrow> string" where
  "SymbolKind_name SymbolKind_File = ''File''"
| "SymbolKind_name SymbolKind_Module = ''Module''"
| "SymbolKind_name SymbolKind_Namespace = ''Namespace''"
| "SymbolKind_name SymbolKind_Package = ''Package''"
| "SymbolKind_name SymbolKind_Class = ''Class''"
| "SymbolKind_name SymbolKind_Method = ''Method''"
| "SymbolKind_name SymbolKind_Property = ''Property''"
| "SymbolKind_name SymbolKind_Field = ''Field''"
| "SymbolKind_name SymbolKind_Constructor = ''Constructor''"
| "SymbolKind_name SymbolKind_Enum = ''Enum''"
| "SymbolKind_name SymbolKind_Interface = ''Interface''"
| "SymbolKind_name SymbolKind_Function = ''Function''"
| "SymbolKind_name SymbolKind_Variable = ''Variable''"
| "SymbolKind_name SymbolKind_Constant = ''Constant''"
| "SymbolKind_name SymbolKind_String = ''String''"
| "SymbolKind_name SymbolKind_Number = ''Number''"
| "SymbolKind_name SymbolKind_Boolean = ''Boolean''"
| "SymbolKind_name SymbolKind_Array = ''Array''"
| "SymbolKind_name SymbolKind_Object = ''Object''"
| "SymbolKind_name SymbolKind_Key = ''Key''"
| "SymbolKind_name SymbolKind_Null = ''Null''"
| "SymbolKind_name SymbolKind_EnumMember = ''EnumMember''"
| "SymbolKind_name SymbolKind_Struct = ''Struct''"
| "SymbolKind_name SymbolKind_Event = ''Event''"
| "SymbolKind_name SymbolKind_Operator = ''Operator''"
| "SymbolKind_name SymbolKind_TypeParameter = ''TypeParameter''"

text \<open>\<^verbatim>\<open>String.prototype.toLowerCase\<close> on the ASCII letters; other bytes are kept.\<close>

definition char_toLowerCase :: "char \<Rightarrow> char" where
  "char_toLowerCase c =
     (let n = (of_char c :: nat) in if 65 \<le> n \<and> n \<le> 90 then char_of (n + 32) else c)"

definition toLowerCase :: "string \<Rightarrow> string" where
  "toLowerCase s = map char_toLowerCase s"

record Position =
  line :: nat
  character :: nat

text \<open>\<^verbatim>\<open>new Position(line, character)\<close> throws on a negative argument.\<close>

definition new_Position :: "int \<Rightarrow> int \<Rightarrow> error + Position" where
  "new_Position l c =
     (if l < 0 then Inl IllegalArgument
      else if c < 0 then Inl IllegalArgument
      else Inr \<lparr>line = nat l, character = nat c\<rparr>)"

definition isBefore :: "Position \<Rightarrow> Position \<Rightarrow> bool" where
  "isBefore a b \<longleftrightarrow> line a < line b \<or> (line a = line b \<and> character a < character b)"

record Range =
  start :: Position
  end_pos :: Position

text \<open>\<^verbatim>\<open>new Range(start, end)\<close> orders its two positions.\<close>

definition new_Range :: "Position \<Rightarrow> Position \<Rightarrow> Range" where
  "new_Range s e = (if isBefore s e then \<lparr>start = s, end_pos = e\<rparr> else \<lparr>start = e, end_pos = s\<rparr>)"

definition new_Range4 :: "nat \<Rightarrow> nat \<Rightarrow> nat \<Rightarrow> nat \<Rightarrow> Range" where
  "new_Range4 sl sc el ec = new_Range \<lparr>line = sl, character = sc\<rparr> \<lparr>line = el, character = ec\<rparr>"

definition isSingleLine :: "Range \<Rightarrow> bool" where
  "isSingleLine r \<longleftrightarrow> line (start r) = line (end_pos r)"

text \<open>\<^verbatim>\<open>range.with(start)\<close>: the same range when nothing changes, a new one otherwise.\<close>

definition Range_with :: "Range \<Rightarrow> Position \<Rightarrow> Range" where
  "Range_with r s = (if s = start r then r else new_Range s (end_pos r))"

text \<open>
  A document is its dirty flag, its language identifier and the text of its lines. An
  editor document always has at least one line: the empty list stands for the document
  whose only line is empty.
\<close>

record TextDocument =
  isDirty :: bool
  languageId :: string
  doc_lines :: "string list"

definition lineCount :: "TextDocument \<Rightarrow> nat" where
  "lineCount d = (if doc_lines d = [] then 1 else length (doc_lines d))"

definition lineText :: "TextDocument \<Rightarrow> nat \<Rightarrow> string" where
  "lineText d n = (if n < length (doc_lines d) then doc_lines d ! n else [])"

definition validatePosition :: "TextDocument \<Rightarrow> Position \<Rightarrow> Position" where
  "validatePosition d p =
     (if lineCount d \<le> line p
      then \<lparr>line = lineCount d - 1, character = length (lineText d (lineCount d - 1))\<rparr>
      else if length (lineText d (line p)) < character p
      then \<lparr>line = line p, character = length (lineText d (line p))\<rparr>
      else p)"

definition validateRange :: "TextDocument \<Rightarrow> Range \<Rightarrow> Range" where
  "validateRange d r = new_Range (validatePosition d (start r)) (validatePosition d (end_pos r))"

record TextLine =
  lineNumber :: nat
  text_range :: Range

text \<open>\<^verbatim>\<open>document.lineAt(position)\<close> throws when the document has no such line.\<close>

definition lineAt :: "TextDocument \<Rightarrow> Position \<Rightarrow> error + TextLine" where
  "lineAt d p =
     (if lineCount d \<le> line p then Inl IllegalLine
      else Inr \<lparr>lineNumber = line p,
                text_range = new_Range4 (line p) 0 (line p) (length (lineText d (line p)))\<rparr>)"

record SymbolInformation =
  sym_name :: string
  sym_kind :: SymbolKind
  sym_range :: Range   \<comment> \<open>\<^verbatim>\<open>symbol.location.range\<close>\<close>

section \<open>Configuration\<close>

datatype CodeLensLocations =
    CodeLensLocations_Document | CodeLensLocations_Containers
  | CodeLensLocations_Blocks | CodeLensLocations_Custom

text \<open>
  The configured action of a lens. The configuration is user data, so a value outside
  the enumeration is possible; it takes the \<^verbatim>\<open>default\<close> branch of the switches.
\<close>

datatype CodeLensCommand =
    BlameAnnotate | ShowBlameHistory | ShowFileHistory | DiffWithPrevious
  | ShowQuickCommitDetails | ShowQuickCommitFileDetails | ShowQuickFileHistory
  | ShowQuickCurrentBranchHistory | OtherCodeLensCommand string

record ICodeLensLanguageLocation =
  language :: "string option"
  locations :: "CodeLensLocations list"
  customSymbols :: "string list option"

record IConfig =
  recentChange_enabled :: bool                 \<comment> \<open>\<^verbatim>\<open>codeLens.recentChange.enabled\<close>\<close>
  recentChange_command :: CodeLensCommand
  authors_enabled :: bool                      \<comment> \<open>\<^verbatim>\<open>codeLens.authors.enabled\<close>\<close>
  authors_command :: CodeLensCommand
  codeLens_debug :: bool
  codeLens_locations :: "CodeLensLocations list"
  customLocationSymbols :: "string list option"
  perLanguageLocations :: "ICodeLensLanguageLocation list"
  unsaved_recentChangeAndAuthors :: string     \<comment> \<open>\<^verbatim>\<open>strings.codeLens.unsavedChanges.*\<close>\<close>
  unsaved_recentChangeOnly :: string
  unsaved_authorsOnly :: string

record GitCodeLensProvider =
  config :: IConfig               \<comment> \<open>\<^verbatim>\<open>_config\<close>\<close>
  documentIsDirty :: bool         \<comment> \<open>\<^verbatim>\<open>_documentIsDirty\<close>\<close>

section \<open>Blame data, commands and lenses\<close>

record GitUri =
  fsPath :: string

record GitCommitLine =
  cl_sha :: string
  cl_line :: nat
  cl_originalLine :: nat

text \<open>
  A blame commit, by what the provider reads from it; \<open>commit_fromNow\<close> is the text that
  \<^verbatim>\<open>commit.fromNow()\<close> returns.
\<close>

record GitBlameCommit =
  commit_sha :: string
  commit_shortSha :: string
  commit_author :: string
  commit_fromNow :: string
  isUncommitted :: bool
  commit_lines :: "GitCommitLine list"

record GitAuthor =
  author_name :: string

text \<open>The two \<^verbatim>\<open>Map\<close>s of a blame keep their insertion order: association lists.\<close>

record GitBlame =
  blame_authors :: "(string \<times> GitAuthor) list"
  blame_commits :: "(string \<times> GitBlameCommit) list"
  blame_lines :: "GitCommitLine list"

record GitBlameLines = GitBlame +
  allLines :: "GitCommitLine list"

text \<open>
  The \<^verbatim>\<open>command\<close> field of a command is a string: a literal of the provider itself, or a
  constant of \<^verbatim>\<open>Commands\<close> or \<^verbatim>\<open>CodeLensCommand\<close>, whose values are declared in
  other modules and are kept symbolic.
\<close>

datatype CommandId =
    Literal string
  | Commands_ToggleFileBlame
  | Commands_ShowBlameHistory
  | Commands_ShowFileHistory
  | Commands_DiffWithPrevious
  | CodeLensCommand_value CodeLensCommand

datatype CommandArg =
    Uri_file string
  | ShowBlameHistoryCommandArgs nat Position Range "string option"
  | ShowFileHistoryCommandArgs nat Position "string option"
  | DiffWithPreviousCommandArgs "GitBlameCommit option" "Range option"
  | ShowQuickCommitDetailsCommandArgs "GitBlameCommit option" "string option"
  | ShowQuickCommitFileDetailsCommandArgs "GitBlameCommit option" "string option"
  | ShowQuickFileHistoryCommandArgs "Range option"

record Command =
  cmd_title :: string
  cmd_command :: "CommandId option"
  cmd_arguments :: "CommandArg list option"

datatype LensClass = GitRecentChangeCodeLens | GitAuthorsCodeLens | OtherCodeLens

text \<open>
  A lens holds its blame function by reference: two lenses built from the same function
  value share it. \<open>lens_blame\<close> is the address of the function in the store of functions
  created during the pass.
\<close>

record CodeLens =
  lens_class :: LensClass
  lens_blame :: nat
  lens_uri :: GitUri
  lens_symbolKind :: SymbolKind
  lens_blameRange :: Range
  lens_isFullRange :: bool
  lens_range :: Range
  lens_command :: "Command option"

text \<open>
  \<^verbatim>\<open>new GitRecentChangeCodeLens(blame, uri, symbolKind, blameRange, isFullRange, range)\<close> and
  \<^verbatim>\<open>new GitAuthorsCodeLens(...)\<close>: a lens without a command.
\<close>

definition new_CodeLens ::
  "LensClass \<Rightarrow> nat \<Rightarrow> GitUri \<Rightarrow> SymbolKind \<Rightarrow> Range \<Rightarrow> bool \<Rightarrow> Range \<Rightarrow> CodeLens" where
  "new_CodeLens c blame uri symbolKind blameRange isFullRange rng =
     \<lparr>lens_class = c, lens_blame = blame, lens_uri = uri, lens_symbolKind = symbolKind,
      lens_blameRange = blameRange, lens_isFullRange = isFullRange, lens_range = rng,
      lens_command = None\<rparr>"

section \<open>The once-wrapped blame function\<close>

text \<open>
  Modelled from the spec: \<^verbatim>\<open>Functions.once\<close> of \<^verbatim>\<open>./system\<close>, which is not among the
  sources. The spec describes it as an explicit memoization cell holding the computed
  aggregate and a computed-flag: the wrapped function runs on the first call, and every
  later call returns the value of the first one. The wrapped function is always
  \<^verbatim>\<open>() => this.git.getBlameForRangeSync(blame, gitUri, blameRange)\<close>, so a cell keeps the
  three captured values. \<open>once_runs\<close> counts how often the wrapped function has run.
\<close>

record OnceCell =
  once_blame :: GitBlame
  once_uri :: GitUri
  once_range :: Range
  once_value :: "GitBlameLines option option"
  once_runs :: nat

type_synonym store = "OnceCell list"

definition Functions_once :: "GitBlame \<Rightarrow> GitUri \<Rightarrow> Range \<Rightarrow> store \<Rightarrow> nat \<times> store" where
  "Functions_once blame gitUri blameRange st =
     (length st,
      st @ [\<lparr>once_blame = blame, once_uri = gitUri, once_range = blameRange,
             once_value = None, once_runs = 0\<rparr>])"

text \<open>
  Calling the function at address \<open>a\<close>. \<open>getBlameForRangeSync\<close> is the method of the git
  service, taken as a parameter. \<open>None\<close> is an address that no function lives at.
\<close>

definition once_call ::
  "(GitBlame \<Rightarrow> GitUri \<Rightarrow> Range \<Rightarrow> GitBlameLines option) \<Rightarrow> nat \<Rightarrow> store
     \<Rightarrow> (GitBlameLines option \<times> store) option" where
  "once_call getBlameForRangeSync a st =
     (if length st \<le> a then None
      else (case once_value (st ! a) of
              Some v \<Rightarrow> Some (v, st)
            | None \<Rightarrow>
                (let c = st ! a;
                     v = getBlameForRangeSync (once_blame c) (once_uri c) (once_range c)
                 in Some (v, st[a := c\<lparr>once_value := Some v, once_runs := once_runs c + 1\<rparr>]))))"

text \<open>\<^verbatim>\<open>lens.getBlame()\<close> of both lens classes.\<close>

definition getBlame ::
  "(GitBlame \<Rightarrow> GitUri \<Rightarrow> Range \<Rightarrow> GitBlameLines option) \<Rightarrow> CodeLens \<Rightarrow> store
     \<Rightarrow> (GitBlameLines option \<times> store) option" where
  "getBlame getBlameForRangeSync lens st = once_call getBlameForRangeSync (lens_blame lens) st"

section \<open>The placement pass\<close>

text \<open>The truth value of the result of \<^verbatim>\<open>Array.prototype.find\<close> on strings.\<close>

definition truthy :: "string option \<Rightarrow> bool" where
  "truthy r = (case r of None \<Rightarrow> False | Some s \<Rightarrow> s \<noteq> [])"

definition customSymbols_or_empty :: "ICodeLensLanguageLocation \<Rightarrow> string list" where
  "customSymbols_or_empty ll = (case customSymbols ll of None \<Rightarrow> [] | Some cs \<Rightarrow> cs)"

text \<open>
  \<^verbatim>\<open>!!(customSymbols || []).find(_ => _.toLowerCase() === SymbolKind[symbol.kind].toLowerCase())\<close>
\<close>

definition customSymbols_include :: "ICodeLensLanguageLocation \<Rightarrow> SymbolKind \<Rightarrow> bool" where
  "customSymbols_include ll k =
     truthy (find (\<lambda>s. toLowerCase s = toLowerCase (SymbolKind_name k)) (customSymbols_or_empty ll))"

text \<open>\<^verbatim>\<open>document.validateRange(new Range(0, 1000000, 1000000, 1000000))\<close>\<close>

definition wholeFileRange :: "TextDocument \<Rightarrow> Range" where
  "wholeFileRange document = validateRange document (new_Range4 0 1000000 1000000 1000000)"

text \<open>
  The \<^verbatim>\<open>switch (symbol.kind)\<close> of \<^verbatim>\<open>_validateSymbolAndGetBlameRange\<close>: the values of
  \<^verbatim>\<open>valid\<close> and \<^verbatim>\<open>range\<close> after it.
\<close>

definition kind_switch ::
  "TextDocument \<Rightarrow> SymbolInformation \<Rightarrow> ICodeLensLanguageLocation \<Rightarrow> bool \<times> Range option" where
  "kind_switch document symbol ll =
     (let containers = (CodeLensLocations_Containers \<in> set (locations ll));
          blocks = (CodeLensLocations_Blocks \<in> set (locations ll));
          custom = (CodeLensLocations_Custom \<in> set (locations ll))
      in case sym_kind symbol of
           SymbolKind_File \<Rightarrow>
             (let valid = (if containers then True
                           else if custom then customSymbols_include ll (sym_kind symbol)
                           else False)
              in (valid, if valid then Some (wholeFileRange document) else None))
         | SymbolKind_Package \<Rightarrow>
             (let valid = (if containers then True
                           else if custom then customSymbols_include ll (sym_kind symbol)
                           else False)
              in (valid,
                  if valid then
                    (if line (start (sym_range symbol)) = 0 \<and> line (end_pos (sym_range symbol)) = 0
                     then Some (wholeFileRange document) else None)
                  else None))
         | SymbolKind_Class \<Rightarrow> (containers, None)
         | SymbolKind_Interface \<Rightarrow> (containers, None)
         | SymbolKind_Module \<Rightarrow> (containers, None)
         | SymbolKind_Namespace \<Rightarrow> (containers, None)
         | SymbolKind_Struct \<Rightarrow> (containers, None)
         | SymbolKind_Constructor \<Rightarrow> (blocks, None)
         | SymbolKind_Enum \<Rightarrow> (blocks, None)
         | SymbolKind_Function \<Rightarrow> (blocks, None)
         | SymbolKind_Method \<Rightarrow> (blocks, None)
         | SymbolKind_Property \<Rightarrow> (blocks, None)
         | _ \<Rightarrow> (False, None))"

definition validateSymbolAndGetBlameRange ::
  "TextDocument \<Rightarrow> SymbolInformation \<Rightarrow> ICodeLensLanguageLocation \<Rightarrow> Range option" where
  "validateSymbolAndGetBlameRange document symbol ll =
     (case kind_switch document symbol ll of
        (valid0, rng) \<Rightarrow>
          (let valid = (if \<not> valid0 \<and> CodeLensLocations_Custom \<in> set (locations ll)
                        then customSymbols_include ll (sym_kind symbol) else valid0)
           in if valid
              then Some (case rng of Some r \<Rightarrow> r | None \<Rightarrow> sym_range symbol)
              else None))"

text \<open>
  The state of a pass: the \<^verbatim>\<open>lenses\<close> array that \<^verbatim>\<open>_provideCodeLens\<close> pushes to, and the
  store of once-wrapped functions created so far.
\<close>

type_synonym pass_state = "CodeLens list \<times> store"

text \<open>
  Lines 189 to 194 of \<^verbatim>\<open>_provideCodeLens\<close>: the recent-change lens. The result is
  \<^verbatim>\<open>blameForRangeFn\<close>, \<^verbatim>\<open>startChar\<close> and the state after the block.
\<close>

definition recentChange_block ::
  "GitCodeLensProvider \<Rightarrow> GitUri \<Rightarrow> SymbolInformation \<Rightarrow> GitBlame \<Rightarrow> Range \<Rightarrow> TextLine
     \<Rightarrow> pass_state \<Rightarrow> error + (nat option \<times> int \<times> pass_state)" where
  "recentChange_block this gitUri symbol blame blameRange ln ps =
     (case ps of (lenses, st) \<Rightarrow>
        (let startChar = int (character (end_pos (text_range ln))) - 1
         in if documentIsDirty this \<or> recentChange_enabled (config this) then
              (case Functions_once blame gitUri blameRange st of
                 (fn, st1) \<Rightarrow>
                   (case new_Position (int (line (start (text_range ln)))) startChar of
                      Inl e \<Rightarrow> Inl e
                    | Inr p \<Rightarrow>
                        Inr (Some fn, startChar + 1,
                             lenses @ [new_CodeLens GitRecentChangeCodeLens fn gitUri
                                         (sym_kind symbol) blameRange False
                                         (Range_with (text_range ln) p)],
                             st1)))
            else Inr (None, startChar, lenses, st)))"

text \<open>The \<^verbatim>\<open>switch\<close> of the Omnisharp hack: the value of \<^verbatim>\<open>multiline\<close> after it.\<close>

fun csharp_switch :: "SymbolKind \<Rightarrow> bool \<Rightarrow> bool" where
  "csharp_switch SymbolKind_File multiline = multiline"
| "csharp_switch SymbolKind_Package multiline = True"
| "csharp_switch SymbolKind_Module multiline = True"
| "csharp_switch SymbolKind_Namespace multiline = True"
| "csharp_switch SymbolKind_Class multiline = True"
| "csharp_switch SymbolKind_Interface multiline = True"
| "csharp_switch SymbolKind_Constructor multiline = True"
| "csharp_switch SymbolKind_Method multiline = True"
| "csharp_switch SymbolKind_Function multiline = True"
| "csharp_switch SymbolKind_Enum multiline = True"
| "csharp_switch _ multiline = multiline"

definition multiline_of :: "TextDocument \<Rightarrow> SymbolInformation \<Rightarrow> Range \<Rightarrow> bool" where
  "multiline_of document symbol blameRange =
     (let multiline = \<not> isSingleLine blameRange
      in if \<not> multiline \<and> languageId document = ''csharp''
         then csharp_switch (sym_kind symbol) multiline
         else multiline)"

text \<open>Lines 196 to 225 of \<^verbatim>\<open>_provideCodeLens\<close>: the authors lens.\<close>

definition authors_block ::
  "GitCodeLensProvider \<Rightarrow> GitUri \<Rightarrow> TextDocument \<Rightarrow> SymbolInformation \<Rightarrow> GitBlame \<Rightarrow> Range
     \<Rightarrow> TextLine \<Rightarrow> nat option \<Rightarrow> int \<Rightarrow> pass_state \<Rightarrow> error + pass_state" where
  "authors_block this gitUri document symbol blame blameRange ln blameForRangeFn startChar ps =
     (case ps of (lenses, st) \<Rightarrow>
        if authors_enabled (config this) then
          (if multiline_of document symbol blameRange then
             (case (case blameForRangeFn of
                      None \<Rightarrow> Functions_once blame gitUri blameRange st
                    | Some fn \<Rightarrow> (fn, st)) of
                (fn, st1) \<Rightarrow>
                  if \<not> documentIsDirty this then
                    (case new_Position (int (line (start (text_range ln)))) startChar of
                       Inl e \<Rightarrow> Inl e
                     | Inr p \<Rightarrow>
                         Inr (lenses @ [new_CodeLens GitAuthorsCodeLens fn gitUri
                                          (sym_kind symbol) blameRange False
                                          (Range_with (text_range ln) p)],
                              st1))
                  else Inr (lenses, st1))
           else Inr (lenses, st))
        else Inr (lenses, st))"

text \<open>
  \<^verbatim>\<open>_provideCodeLens\<close>. An exception leaves the function, and with it the whole pass:
  \<open>Inl\<close>.
\<close>

definition provideCodeLens ::
  "GitCodeLensProvider \<Rightarrow> GitUri \<Rightarrow> TextDocument \<Rightarrow> SymbolInformation
     \<Rightarrow> ICodeLensLanguageLocation \<Rightarrow> GitBlame \<Rightarrow> pass_state \<Rightarrow> error + pass_state" where
  "provideCodeLens this gitUri document symbol languageLocation blame ps =
     (case validateSymbolAndGetBlameRange document symbol languageLocation of
        None \<Rightarrow> Inr ps
      | Some blameRange \<Rightarrow>
          (case lineAt document (start (sym_range symbol)) of
             Inl e \<Rightarrow> Inl e
           | Inr ln \<Rightarrow>
               if fst ps \<noteq> [] \<and> line (start (lens_range (last (fst ps)))) = lineNumber ln
               then Inr ps
               else
                 (case recentChange_block this gitUri symbol blame blameRange ln ps of
                    Inl e \<Rightarrow> Inl e
                  | Inr (blameForRangeFn, startChar, ps1) \<Rightarrow>
                      authors_block this gitUri document symbol blame blameRange ln
                        blameForRangeFn startChar ps1)))"

text \<open>\<^verbatim>\<open>symbols.forEach(sym => this._provideCodeLens(...))\<close>\<close>

fun forEach_provideCodeLens ::
  "GitCodeLensProvider \<Rightarrow> GitUri \<Rightarrow> TextDocument \<Rightarrow> ICodeLensLanguageLocation \<Rightarrow> GitBlame
     \<Rightarrow> SymbolInformation list \<Rightarrow> pass_state \<Rightarrow> error + pass_state" where
  "forEach_provideCodeLens this gitUri document ll blame [] ps = Inr ps"
| "forEach_provideCodeLens this gitUri document ll blame (symbol # symbols) ps =
     (case provideCodeLens this gitUri document symbol ll blame ps of
        Inl e \<Rightarrow> Inl e
      | Inr ps1 \<Rightarrow> forEach_provideCodeLens this gitUri document ll blame symbols ps1)"

text \<open>The language locations that \<^verbatim>\<open>provideCodeLenses\<close> works with (lines 58 to 65).\<close>

definition languageLocations_of :: "IConfig \<Rightarrow> TextDocument \<Rightarrow> ICodeLensLanguageLocation" where
  "languageLocations_of cfg document =
     (case find (\<lambda>l. case language l of None \<Rightarrow> False
                                       | Some s \<Rightarrow> toLowerCase s = languageId document)
                (perLanguageLocations cfg) of
        Some ll \<Rightarrow> ll
      | None \<Rightarrow> \<lparr>language = None, locations = codeLens_locations cfg,
                  customSymbols = customLocationSymbols cfg\<rparr>)"

text \<open>The condition of line 91: the policy asks for a lens for the whole document.\<close>

definition wantsDocumentLens :: "ICodeLensLanguageLocation \<Rightarrow> bool" where
  "wantsDocumentLens ll \<longleftrightarrow>
     CodeLensLocations_Document \<in> set (locations ll) \<or>
     (CodeLensLocations_Custom \<in> set (locations ll) \<and>
      truthy (find (\<lambda>s. toLowerCase s = ''file'') (customSymbols_or_empty ll)))"

text \<open>Lines 91 to 110 of \<^verbatim>\<open>provideCodeLenses\<close>: the lens for the whole document.\<close>

definition documentLens_block ::
  "GitCodeLensProvider \<Rightarrow> GitUri \<Rightarrow> TextDocument \<Rightarrow> ICodeLensLanguageLocation \<Rightarrow> GitBlame
     \<Rightarrow> pass_state \<Rightarrow> pass_state" where
  "documentLens_block this gitUri document ll blame ps =
     (case ps of (lenses, st) \<Rightarrow>
        if wantsDocumentLens ll then
          (if find (\<lambda>l. line (start (lens_range l)) = 0 \<and> line (end_pos (lens_range l)) = 0)
                lenses = None then
             (let blameRange = wholeFileRange document in
              case (if documentIsDirty this \<or> recentChange_enabled (config this) then
                      (case Functions_once blame gitUri blameRange st of
                         (fn, st1) \<Rightarrow>
                           (Some fn,
                            lenses @ [new_CodeLens GitRecentChangeCodeLens fn gitUri
                                        SymbolKind_File blameRange True
                                        (new_Range4 0 0 0 (character (start blameRange)))],
                            st1))
                    else (None, lenses, st)) of
                (blameForRangeFn, lenses1, st1) \<Rightarrow>
                  if authors_enabled (config this) then
                    (case (case blameForRangeFn of
                             None \<Rightarrow> Functions_once blame gitUri blameRange st1
                           | Some fn \<Rightarrow> (fn, st1)) of
                       (fn, st2) \<Rightarrow>
                         if \<not> documentIsDirty this then
                           (lenses1 @ [new_CodeLens GitAuthorsCodeLens fn gitUri
                                         SymbolKind_File blameRange True
                                         (new_Range4 0 1 0 (character (start blameRange)))],
                            st2)
                         else (lenses1, st2))
                  else (lenses1, st1))
           else (lenses, st))
        else (lenses, st))"

text \<open>
  \<^verbatim>\<open>provideCodeLenses\<close>, from the values its awaits produce: the git URI, the blame of
  the file (\<open>None\<close> for \<^verbatim>\<open>undefined\<close>) and the symbols of the document, which are only
  read on the second branch. The result is the provider, whose dirty flag is set, and
  the lenses with the store of their blame functions, or the exception of the pass.
\<close>

definition provideCodeLenses ::
  "GitCodeLensProvider \<Rightarrow> TextDocument \<Rightarrow> GitUri \<Rightarrow> GitBlame option \<Rightarrow> SymbolInformation list
     \<Rightarrow> GitCodeLensProvider \<times> (error + pass_state)" where
  "provideCodeLenses this0 document gitUri blame symbols =
     (let this = this0\<lparr>documentIsDirty := isDirty document\<rparr>;
          languageLocations = languageLocations_of (config this) document
      in (this,
          if length (locations languageLocations) = 1 \<and>
             CodeLensLocations_Document \<in> set (locations languageLocations)
          then
            (case blame of
               None \<Rightarrow> Inr ([], [])
             | Some b \<Rightarrow>
                 if length (blame_lines b) = 0 then Inr ([], [])
                 else Inr (documentLens_block this gitUri document languageLocations b ([], [])))
          else
            (case blame of
               None \<Rightarrow> Inr ([], [])
             | Some b \<Rightarrow>
                 if length (blame_lines b) = 0 then Inr ([], [])
                 else
                   (case forEach_provideCodeLens this gitUri document languageLocations b
                           symbols ([], []) of
                      Inl e \<Rightarrow> Inl e
                    | Inr ps \<Rightarrow>
                        Inr (documentLens_block this gitUri document languageLocations b ps)))))"

section \<open>Resolving a lens\<close>

text \<open>Numbers in template strings: decimal digits.\<close>

fun string_of_nat :: "nat \<Rightarrow> string" where
  "string_of_nat n =
     (if n < 10 then [char_of (48 + n)]
      else string_of_nat (n div 10) @ [char_of (48 + n mod 10)])"

text \<open>\<^verbatim>\<open>Iterables.join(source, separator)\<close>\<close>

fun Iterables_join :: "string list \<Rightarrow> string \<Rightarrow> string" where
  "Iterables_join [] sep = []"
| "Iterables_join [x] sep = x"
| "Iterables_join (x # y # ys) sep = x @ sep @ Iterables_join (y # ys) sep"

text \<open>\<^verbatim>\<open>Iterables.first(source)\<close>: \<^verbatim>\<open>undefined\<close> on an empty source.\<close>

definition Iterables_first :: "'a list \<Rightarrow> 'a option" where
  "Iterables_first xs = (case xs of [] \<Rightarrow> None | x # _ \<Rightarrow> Some x)"

definition set_command :: "CodeLens \<Rightarrow> Command \<Rightarrow> CodeLens" where
  "set_command lens c = lens\<lparr>lens_command := Some c\<rparr>"

definition applyBlameAnnotateCommand :: "string \<Rightarrow> CodeLens \<Rightarrow> GitBlameLines \<Rightarrow> CodeLens" where
  "applyBlameAnnotateCommand title lens blame =
     set_command lens
       \<lparr>cmd_title = title, cmd_command = Some Commands_ToggleFileBlame,
        cmd_arguments = Some [Uri_file (fsPath (lens_uri lens))]\<rparr>"

text \<open>
  The line that the history commands start from: the commit's original line of the
  lens's line, when the commit is given and has that line.
\<close>

definition history_line :: "CodeLens \<Rightarrow> GitBlameCommit option \<Rightarrow> nat" where
  "history_line lens commit =
     (let line0 = line (start (lens_range lens))
      in case commit of
           None \<Rightarrow> line0
         | Some c \<Rightarrow>
             (case find (\<lambda>l. cl_line l = line0) (commit_lines c) of
                None \<Rightarrow> line0
              | Some blameLine \<Rightarrow> cl_originalLine blameLine))"

definition history_position :: "CodeLens \<Rightarrow> Position" where
  "history_position lens =
     (if lens_isFullRange lens then \<lparr>line = 1, character = 0\<rparr> else start (lens_range lens))"

definition applyShowBlameHistoryCommand ::
  "string \<Rightarrow> CodeLens \<Rightarrow> GitBlameLines \<Rightarrow> GitBlameCommit option \<Rightarrow> CodeLens" where
  "applyShowBlameHistoryCommand title lens blame commit =
     set_command lens
       \<lparr>cmd_title = title, cmd_command = Some Commands_ShowBlameHistory,
        cmd_arguments =
          Some [Uri_file (fsPath (lens_uri lens)),
                ShowBlameHistoryCommandArgs (history_line lens commit) (history_position lens)
                  (lens_blameRange lens) (map_option commit_sha commit)]\<rparr>"

definition applyShowFileHistoryCommand ::
  "string \<Rightarrow> CodeLens \<Rightarrow> GitBlameLines \<Rightarrow> GitBlameCommit option \<Rightarrow> CodeLens" where
  "applyShowFileHistoryCommand title lens blame commit =
     set_command lens
       \<lparr>cmd_title = title, cmd_command = Some Commands_ShowFileHistory,
        cmd_arguments =
          Some [Uri_file (fsPath (lens_uri lens)),
                ShowFileHistoryCommandArgs (history_line lens commit) (history_position lens)
                  (map_option commit_sha commit)]\<rparr>"

text \<open>
  Without a commit, the commit of the blame line at the lens's line is looked up;
  \<^verbatim>\<open>blame.allLines[n]\<close> is \<^verbatim>\<open>undefined\<close> past the end, and reading its \<^verbatim>\<open>sha\<close> throws.
\<close>

definition applyDiffWithPreviousCommand ::
  "string \<Rightarrow> CodeLens \<Rightarrow> GitBlameLines \<Rightarrow> GitBlameCommit option \<Rightarrow> error + CodeLens" where
  "applyDiffWithPreviousCommand title lens blame commit0 =
     (case (case commit0 of
              Some c \<Rightarrow> Inr (Some c)
            | None \<Rightarrow>
                (if line (start (lens_range lens)) < length (allLines blame)
                 then Inr (map_of (blame_commits blame)
                             (cl_sha (allLines blame ! line (start (lens_range lens)))))
                 else Inl TypeError)) of
        Inl e \<Rightarrow> Inl e
      | Inr commit \<Rightarrow>
          Inr (set_command lens
                 \<lparr>cmd_title = title, cmd_command = Some Commands_DiffWithPrevious,
                  cmd_arguments =
                    Some [Uri_file (fsPath (lens_uri lens)),
                          DiffWithPreviousCommandArgs commit
                            (if lens_isFullRange lens then None
                             else Some (lens_blameRange lens))]\<rparr>))"

text \<open>
  \<^verbatim>\<open>commit !== undefined && commit.isUncommitted ? '' : CodeLensCommand.X\<close>, the
  \<^verbatim>\<open>command\<close> field of the two quick-commit commands.
\<close>

definition quickCommit_command :: "GitBlameCommit option \<Rightarrow> CodeLensCommand \<Rightarrow> CommandId" where
  "quickCommit_command commit c =
     (if (case commit of None \<Rightarrow> False | Some x \<Rightarrow> isUncommitted x) then Literal []
      else CodeLensCommand_value c)"

definition applyShowQuickCommitDetailsCommand ::
  "string \<Rightarrow> CodeLens \<Rightarrow> GitBlameLines \<Rightarrow> GitBlameCommit option \<Rightarrow> CodeLens" where
  "applyShowQuickCommitDetailsCommand title lens blame commit =
     set_command lens
       \<lparr>cmd_title = title,
        cmd_command = Some (quickCommit_command commit ShowQuickCommitDetails),
        cmd_arguments =
          Some [Uri_file (fsPath (lens_uri lens)),
                ShowQuickCommitDetailsCommandArgs commit (map_option commit_sha commit)]\<rparr>"

definition applyShowQuickCommitFileDetailsCommand ::
  "string \<Rightarrow> CodeLens \<Rightarrow> GitBlameLines \<Rightarrow> GitBlameCommit option \<Rightarrow> CodeLens" where
  "applyShowQuickCommitFileDetailsCommand title lens blame commit =
     set_command lens
       \<lparr>cmd_title = title,
        cmd_command = Some (quickCommit_command commit ShowQuickCommitFileDetails),
        cmd_arguments =
          Some [Uri_file (fsPath (lens_uri lens)),
                ShowQuickCommitFileDetailsCommandArgs commit (map_option commit_sha commit)]\<rparr>"

definition applyShowQuickFileHistoryCommand ::
  "string \<Rightarrow> CodeLens \<Rightarrow> GitBlameLines \<Rightarrow> GitBlameCommit option \<Rightarrow> CodeLens" where
  "applyShowQuickFileHistoryCommand title lens blame commit =
     set_command lens
       \<lparr>cmd_title = title,
        cmd_command = Some (CodeLensCommand_value ShowQuickFileHistory),
        cmd_arguments =
          Some [Uri_file (fsPath (lens_uri lens)),
                ShowQuickFileHistoryCommandArgs
                  (if lens_isFullRange lens then None else Some (lens_blameRange lens))]\<rparr>"

definition applyShowQuickBranchHistoryCommand ::
  "string \<Rightarrow> CodeLens \<Rightarrow> GitBlameLines \<Rightarrow> GitBlameCommit option \<Rightarrow> CodeLens" where
  "applyShowQuickBranchHistoryCommand title lens blame commit =
     set_command lens
       \<lparr>cmd_title = title,
        cmd_command = Some (CodeLensCommand_value ShowQuickCurrentBranchHistory),
        cmd_arguments = Some [Uri_file (fsPath (lens_uri lens))]\<rparr>"

text \<open>
  The \<^verbatim>\<open>switch\<close> on the configured command, shared by both resolvers: the authors
  resolver passes no commit.
\<close>

fun apply_command ::
  "CodeLensCommand \<Rightarrow> string \<Rightarrow> CodeLens \<Rightarrow> GitBlameLines \<Rightarrow> GitBlameCommit option
     \<Rightarrow> error + CodeLens" where
  "apply_command BlameAnnotate title lens blame commit =
     Inr (applyBlameAnnotateCommand title lens blame)"
| "apply_command ShowBlameHistory title lens blame commit =
     Inr (applyShowBlameHistoryCommand title lens blame commit)"
| "apply_command ShowFileHistory title lens blame commit =
     Inr (applyShowFileHistoryCommand title lens blame commit)"
| "apply_command DiffWithPrevious title lens blame commit =
     applyDiffWithPreviousCommand title lens blame commit"
| "apply_command ShowQuickCommitDetails title lens blame commit =
     Inr (applyShowQuickCommitDetailsCommand title lens blame commit)"
| "apply_command ShowQuickCommitFileDetails title lens blame commit =
     Inr (applyShowQuickCommitFileDetailsCommand title lens blame commit)"
| "apply_command ShowQuickFileHistory title lens blame commit =
     Inr (applyShowQuickFileHistoryCommand title lens blame commit)"
| "apply_command ShowQuickCurrentBranchHistory title lens blame commit =
     Inr (applyShowQuickBranchHistoryCommand title lens blame commit)"
| "apply_command (OtherCodeLensCommand v) title lens blame commit = Inr lens"

text \<open>The title of a dirty document (lines 238 to 246).\<close>

definition unsavedChanges_title :: "IConfig \<Rightarrow> string" where
  "unsavedChanges_title cfg =
     (if recentChange_enabled cfg \<and> authors_enabled cfg then unsaved_recentChangeAndAuthors cfg
      else if recentChange_enabled cfg then unsaved_recentChangeOnly cfg
      else unsaved_authorsOnly cfg)"

definition debug_prefix :: "CodeLens \<Rightarrow> string" where
  "debug_prefix lens =
     '' ['' @ SymbolKind_name (lens_symbolKind lens) @ ''('' @
     string_of_nat (character (start (lens_range lens))) @ ''-'' @
     string_of_nat (character (end_pos (lens_range lens))) @ ''), Lines ('' @
     string_of_nat (line (start (lens_blameRange lens)) + 1) @ ''-'' @
     string_of_nat (line (end_pos (lens_blameRange lens)) + 1) @ ''), ''"

text \<open>
  \<^verbatim>\<open>_resolveGitRecentChangeCodeLens\<close>. The result is the lens and the store after the
  call of \<^verbatim>\<open>lens.getBlame()\<close>.
\<close>

definition resolveGitRecentChangeCodeLens ::
  "(GitBlame \<Rightarrow> GitUri \<Rightarrow> Range \<Rightarrow> GitBlameLines option) \<Rightarrow> GitCodeLensProvider \<Rightarrow> CodeLens
     \<Rightarrow> store \<Rightarrow> error + (CodeLens \<times> store)" where
  "resolveGitRecentChangeCodeLens getBlameForRangeSync this lens st =
     (if documentIsDirty this then
        Inr (set_command lens
               \<lparr>cmd_title = unsavedChanges_title (config this), cmd_command = None,
                cmd_arguments = None\<rparr>, st)
      else
        (case getBlame getBlameForRangeSync lens st of
           None \<Rightarrow> Inl NoSuchFunction
         | Some (None, st1) \<Rightarrow> Inr (lens, st1)
         | Some (Some blame, st1) \<Rightarrow>
             (case Iterables_first (map snd (blame_commits blame)) of
                None \<Rightarrow> Inl TypeError
              | Some recentCommit \<Rightarrow>
                  (let title0 = commit_author recentCommit @ '', '' @ commit_fromNow recentCommit;
                       title = (if codeLens_debug (config this)
                                then title0 @ debug_prefix lens @ ''Commit ('' @
                                     commit_shortSha recentCommit @ '')]''
                                else title0)
                   in case apply_command (recentChange_command (config this)) title lens blame
                             (Some recentCommit) of
                        Inl e \<Rightarrow> Inl e
                      | Inr lens1 \<Rightarrow> Inr (lens1, st1)))))"

text \<open>\<^verbatim>\<open>_resolveGitAuthorsCodeLens\<close>\<close>

definition resolveGitAuthorsCodeLens ::
  "(GitBlame \<Rightarrow> GitUri \<Rightarrow> Range \<Rightarrow> GitBlameLines option) \<Rightarrow> GitCodeLensProvider \<Rightarrow> CodeLens
     \<Rightarrow> store \<Rightarrow> error + (CodeLens \<times> store)" where
  "resolveGitAuthorsCodeLens getBlameForRangeSync this lens st =
     (case getBlame getBlameForRangeSync lens st of
        None \<Rightarrow> Inl NoSuchFunction
      | Some (None, st1) \<Rightarrow> Inr (lens, st1)
      | Some (Some blame, st1) \<Rightarrow>
          (case Iterables_first (map snd (blame_authors blame)) of
             None \<Rightarrow> Inl TypeError
           | Some firstAuthor \<Rightarrow>
               (let count = length (blame_authors blame);
                    title0 = string_of_nat count @ '' '' @
                             (if count > 1 then ''authors'' else ''author'') @ '' ('' @
                             author_name firstAuthor @
                             (if count > 1 then '' and others'' else []) @ '')'';
                    title = (if codeLens_debug (config this)
                             then title0 @ debug_prefix lens @ ''Authors ('' @
                                  Iterables_join (map (author_name \<circ> snd) (blame_authors blame))
                                    '', '' @ '')]''
                             else title0)
                in case apply_command (authors_command (config this)) title lens blame None of
                     Inl e \<Rightarrow> Inl e
                   | Inr lens1 \<Rightarrow> Inr (lens1, st1))))"

text \<open>\<^verbatim>\<open>resolveCodeLens\<close>\<close>

definition resolveCodeLens ::
  "(GitBlame \<Rightarrow> GitUri \<Rightarrow> Range \<Rightarrow> GitBlameLines option) \<Rightarrow> GitCodeLensProvider \<Rightarrow> CodeLens
     \<Rightarrow> store \<Rightarrow> error + (CodeLens \<times> store)" where
  "resolveCodeLens getBlameForRangeSync this lens st =
     (case lens_class lens of
        GitRecentChangeCodeLens \<Rightarrow> resolveGitRecentChangeCodeLens getBlameForRangeSync this lens st
      | GitAuthorsCodeLens \<Rightarrow> resolveGitAuthorsCodeLens getBlameForRangeSync this lens st
      | OtherCodeLens \<Rightarrow> Inl Rejected)"

section \<open>The content provider\<close>

text \<open>
  The fields that \<^verbatim>\<open>GitService.fromGitContentUri(uri)\<close> decodes from the URI.
\<close>

record GitContentUriData =
  data_repoPath :: string
  data_fileName :: string
  data_originalFileName :: "string option"
  data_sha :: string
  data_decoration :: "string option"

text \<open>
  What \<^verbatim>\<open>provideTextDocumentContent\<close> calls and is not part of the sources:
  \<^verbatim>\<open>GitService.fakeSha\<close>, \<^verbatim>\<open>git.getVersionedFileText\<close> (\<open>Inl\<close> is the exception of a failed
  fetch), \<^verbatim>\<open>GitService.shortenSha\<close> and \<^verbatim>\<open>path.relative\<close>.
\<close>

record GitServiceEnv =
  fakeSha :: string
  getVersionedFileText :: "string \<Rightarrow> string \<Rightarrow> string \<Rightarrow> string + string"
  shortenSha :: "string \<Rightarrow> string"
  path_relative :: "string \<Rightarrow> string \<Rightarrow> string"

text \<open>What the function does to the outside, in the order it does it.\<close>

datatype effect =
    Fetch_getVersionedFileText string string string
  | Logger_error string string string
  | Window_showErrorMessage string

text \<open>
  \<^verbatim>\<open>provideTextDocumentContent\<close>: the outcome of the promise (\<open>Inl\<close> for a rejection, \<open>Inr None\<close>
  for \<^verbatim>\<open>undefined\<close>) and the effects.
\<close>

definition provideTextDocumentContent ::
  "GitServiceEnv \<Rightarrow> GitContentUriData \<Rightarrow> (string + string option) \<times> effect list" where
  "provideTextDocumentContent env data =
     (let fileName = (case data_originalFileName data of
                        None \<Rightarrow> data_fileName data
                      | Some n \<Rightarrow> if n = [] then data_fileName data else n);
          fetched = (if data_sha data \<noteq> fakeSha env
                     then (getVersionedFileText env (data_repoPath data) fileName (data_sha data),
                           [Fetch_getVersionedFileText (data_repoPath data) fileName
                              (data_sha data)])
                     else (Inr [], []))
      in case fst fetched of
           Inr text0 \<Rightarrow>
             (Inr (Some (case data_decoration data of
                           None \<Rightarrow> text0
                         | Some d \<Rightarrow> if d = [] then text0 else d @ [CHR 0x0A] @ text0)),
              snd fetched)
         | Inl ex \<Rightarrow>
             (Inr None,
              snd fetched @
              [Logger_error ex ''GitContentProvider'' ''getVersionedFileText'',
               Window_showErrorMessage
                 (''Unable to show Git revision '' @ shortenSha env (data_sha data) @
                  '' of '' @ [CHR 0x27] @
                  path_relative env (data_repoPath data) fileName @ [CHR 0x27])]))"

section \<open>Notions used in the properties\<close>

text \<open>The \<^verbatim>\<open>command\<close> field of the command of a lens, when it has both.\<close>

definition command_of :: "CodeLens \<Rightarrow> CommandId option" where
  "command_of lens = (case lens_command lens of None \<Rightarrow> None | Some c \<Rightarrow> cmd_command c)"

text \<open>The line a lens is anchored at, and the line a symbol starts at.\<close>

definition lens_line :: "CodeLens \<Rightarrow> nat" where
  "lens_line l = line (start (lens_range l))"

definition symbol_line :: "SymbolInformation \<Rightarrow> nat" where
  "symbol_line s = line (start (sym_range s))"

text \<open>The class of a lens together with its line.\<close>

definition lens_key :: "CodeLens \<Rightarrow> LensClass \<times> nat" where
  "lens_key l = (lens_class l, lens_line l)"

text \<open>The lenses of a pass; a pass that ends in an exception returns none.\<close>

definition lenses_of :: "error + pass_state \<Rightarrow> CodeLens list" where
  "lenses_of r = (case r of Inl e \<Rightarrow> [] | Inr ps \<Rightarrow> fst ps)"


text \<open>
  A lens that \<^verbatim>\<open>_provideCodeLens\<close> builds for a symbol: its class, its blame function, and
  what it takes from the symbol and the blame range.
\<close>

definition is_symbol_lens ::
  "LensClass \<Rightarrow> GitUri \<Rightarrow> SymbolInformation \<Rightarrow> Range \<Rightarrow> nat \<Rightarrow> CodeLens \<Rightarrow> bool" where
  "is_symbol_lens c gitUri symbol r fn l \<longleftrightarrow>
     lens_class l = c \<and> lens_blame l = fn \<and> lens_uri l = gitUri \<and>
     lens_symbolKind l = sym_kind symbol \<and> lens_blameRange l = r \<and> \<not> lens_isFullRange l \<and>
     line (start (lens_range l)) = line (start (sym_range symbol)) \<and>
     line (end_pos (lens_range l)) = line (start (sym_range symbol)) \<and>
     lens_command l = None"

text \<open>The cell that \<^verbatim>\<open>Functions.once\<close> creates for a blame range.\<close>

definition fresh_cell :: "GitBlame \<Rightarrow> GitUri \<Rightarrow> Range \<Rightarrow> OnceCell" where
  "fresh_cell blame gitUri r =
     \<lparr>once_blame = blame, once_uri = gitUri, once_range = r, once_value = None, once_runs = 0\<rparr>"

text \<open>
  What the symbol pass keeps true of its lenses when the symbols come in the order of
  their lines: no class twice on a line, lines in ascending order, every lens on one line.
\<close>

definition line_inv :: "CodeLens list \<Rightarrow> bool" where
  "line_inv lenses \<longleftrightarrow>
     distinct (map lens_key lenses) \<and> sorted (map lens_line lenses) \<and>
     (\<forall>l\<in>set lenses. line (end_pos (lens_range l)) = lens_line l)"


text \<open>A cell after the first call of its function.\<close>

definition called_cell ::
  "(GitBlame \<Rightarrow> GitUri \<Rightarrow> Range \<Rightarrow> GitBlameLines option) \<Rightarrow> OnceCell \<Rightarrow> OnceCell" where
  "called_cell g c =
     c\<lparr>once_value := Some (g (once_blame c) (once_uri c) (once_range c)), once_runs := 1\<rparr>"


text \<open>
  A symbol whose lenses can be anchored: it starts on a line that the document has and
  that is not empty.
\<close>

definition anchor_line_ok :: "TextDocument \<Rightarrow> SymbolInformation \<Rightarrow> bool" where
  "anchor_line_ok d s \<longleftrightarrow> symbol_line s < lineCount d \<and> lineText d (symbol_line s) \<noteq> []"

text \<open>
  The command identifier that each configured action is built with; a configured value
  outside the enumeration leaves the lens as it is.
\<close>

definition configured_command :: "CodeLensCommand \<Rightarrow> CodeLens \<Rightarrow> CommandId option" where
  "configured_command k lens =
     (case k of
        BlameAnnotate \<Rightarrow> Some Commands_ToggleFileBlame
      | ShowBlameHistory \<Rightarrow> Some Commands_ShowBlameHistory
      | ShowFileHistory \<Rightarrow> Some Commands_ShowFileHistory
      | DiffWithPrevious \<Rightarrow> Some Commands_DiffWithPrevious
      | ShowQuickCommitDetails \<Rightarrow> Some (CodeLensCommand_value ShowQuickCommitDetails)
      | ShowQuickCommitFileDetails \<Rightarrow> Some (CodeLensCommand_value ShowQuickCommitFileDetails)
      | ShowQuickFileHistory \<Rightarrow> Some (CodeLensCommand_value ShowQuickFileHistory)
      | ShowQuickCurrentBranchHistory \<Rightarrow>
          Some (CodeLensCommand_value ShowQuickCurrentBranchHistory)
      | OtherCodeLensCommand v \<Rightarrow> command_of lens)"

section \<open>Example inputs\<close>

definition ex_config :: IConfig where
  "ex_config =
     \<lparr>recentChange_enabled = True, recentChange_command = ShowQuickCommitDetails,
      authors_enabled = True, authors_command = BlameAnnotate, codeLens_debug = False,
      codeLens_locations = [CodeLensLocations_Containers, CodeLensLocations_Blocks],
      customLocationSymbols = None, perLanguageLocations = [],
      unsaved_recentChangeAndAuthors = ''both'', unsaved_recentChangeOnly = ''recent'',
      unsaved_authorsOnly = ''authors''\<rparr>"

definition ex_provider :: GitCodeLensProvider where
  "ex_provider = \<lparr>config = ex_config, documentIsDirty = False\<rparr>"

definition ex_document :: TextDocument where
  "ex_document =
     \<lparr>isDirty = False, languageId = ''go'', doc_lines = [''a'', ''bb'', ''ccc'', ''d'']\<rparr>"

definition ex_uri :: GitUri where
  "ex_uri = \<lparr>fsPath = ''f''\<rparr>"

definition ex_blame :: GitBlame where
  "ex_blame =
     \<lparr>blame_authors = [], blame_commits = [],
      blame_lines = [\<lparr>cl_sha = ''s'', cl_line = 0, cl_originalLine = 0\<rparr>]\<rparr>"

definition ex_symbol :: "SymbolKind \<Rightarrow> nat \<Rightarrow> nat \<Rightarrow> SymbolInformation" where
  "ex_symbol k a b = \<lparr>sym_name = ''x'', sym_kind = k, sym_range = new_Range4 a 0 b 1\<rparr>"

text \<open>The lens of a one-line \<^verbatim>\<open>Function\<close> symbol on line 1 of the example document.\<close>

definition ex_lens :: CodeLens where
  "ex_lens =
     \<lparr>lens_class = GitRecentChangeCodeLens, lens_blame = 0, lens_uri = ex_uri,
      lens_symbolKind = SymbolKind_Function, lens_blameRange = new_Range4 1 0 1 1,
      lens_isFullRange = False, lens_range = new_Range4 1 1 1 2, lens_command = None\<rparr>"

definition ex_commit :: GitBlameCommit where
  "ex_commit =
     \<lparr>commit_sha = ''0000'', commit_shortSha = ''00'', commit_author = ''A'',
      commit_fromNow = ''now'', isUncommitted = True, commit_lines = []\<rparr>"

definition ex_blameLines :: GitBlameLines where
  "ex_blameLines =
     \<lparr>blame_authors = [(''A'', \<lparr>author_name = ''A''\<rparr>)],
      blame_commits = [(''0000'', ex_commit)], blame_lines = [], allLines = []\<rparr>"

definition ex_getBlameForRangeSync :: "GitBlame \<Rightarrow> GitUri \<Rightarrow> Range \<Rightarrow> GitBlameLines option" where
  "ex_getBlameForRangeSync blame gitUri r = Some ex_blameLines"

definition ex_env :: GitServiceEnv where
  "ex_env =
     \<lparr>fakeSha = ''ffff'', getVersionedFileText = (\<lambda>repoPath fileName sha. Inl ''gone''),
      shortenSha = take 2, path_relative = (\<lambda>repoPath fileName. fileName)\<rparr>"

definition ex_data :: GitContentUriData where
  "ex_data =
     \<lparr>data_repoPath = ''r'', data_fileName = ''a.ts'', data_originalFileName = None,
      data_sha = ''abcd'', data_decoration = None\<rparr>"

definition ex_location :: ICodeLensLanguageLocation where
  "ex_location =
     \<lparr>language = None, locations = [CodeLensLocations_Containers, CodeLensLocations_Blocks],
      customSymbols = None\<rparr>"

text \<open>The lenses of a \<^verbatim>\<open>File\<close> symbol on line 2 of the example document.\<close>

definition ex_file_lens :: "LensClass \<Rightarrow> nat \<Rightarrow> CodeLens" where
  "ex_file_lens c col =
     \<lparr>lens_class = c, lens_blame = 0, lens_uri = ex_uri, lens_symbolKind = SymbolKind_File,
      lens_blameRange = new_Range4 0 1 3 1, lens_isFullRange = False,
      lens_range = new_Range4 2 col 2 3, lens_command = None\<rparr>"

text \<open>A dirty document, and a provider with recent changes disabled.\<close>

definition ex_dirty_document :: TextDocument where
  "ex_dirty_document = ex_document\<lparr>isDirty := True\<rparr>"

definition ex_authorsOnly_provider :: GitCodeLensProvider where
  "ex_authorsOnly_provider =
     \<lparr>config = ex_config\<lparr>recentChange_enabled := False,
                          codeLens_locations :=
                            [CodeLensLocations_Document, CodeLensLocations_Containers]\<rparr>,
      documentIsDirty = False\<rparr>"

definition ex_class_lens :: CodeLens where
  "ex_class_lens =
     new_CodeLens GitRecentChangeCodeLens 0 ex_uri SymbolKind_Class (new_Range4 1 0 2 1) False
       (new_Range4 1 1 1 2)"

definition ex_document_lens :: CodeLens where
  "ex_document_lens =
     new_CodeLens GitRecentChangeCodeLens 1 ex_uri SymbolKind_File (new_Range4 0 1 3 1) True
       (new_Range4 0 0 0 1)"

definition ex_class_authors_lens :: CodeLens where
  "ex_class_authors_lens =
     new_CodeLens GitAuthorsCodeLens 0 ex_uri SymbolKind_Class (new_Range4 1 0 2 1) False
       (new_Range4 1 2 1 2)"

section \<open>Properties\<close>

lemmas ex_defs =
  ex_config_def ex_provider_def ex_document_def ex_uri_def ex_blame_def ex_symbol_def
  ex_location_def

lemmas range_defs =
  new_Range4_def new_Range_def isBefore_def Range_with_def validateRange_def
  validatePosition_def lineCount_def lineText_def lineAt_def new_Position_def
  wholeFileRange_def isSingleLine_def

lemmas pass_defs =
  provideCodeLenses_def languageLocations_of_def provideCodeLens_def
  validateSymbolAndGetBlameRange_def kind_switch_def customSymbols_include_def
  customSymbols_or_empty_def truthy_def recentChange_block_def authors_block_def
  multiline_of_def documentLens_block_def wantsDocumentLens_def Functions_once_def
  new_CodeLens_def
  toLowerCase_def char_toLowerCase_def

lemmas apply_defs =
  applyBlameAnnotateCommand_def applyShowBlameHistoryCommand_def
  applyShowFileHistoryCommand_def applyDiffWithPreviousCommand_def
  applyShowQuickCommitDetailsCommand_def applyShowQuickCommitFileDetailsCommand_def
  applyShowQuickFileHistoryCommand_def applyShowQuickBranchHistoryCommand_def
  set_command_def quickCommit_command_def command_of_def

subsection \<open>No blame, no lenses\<close>

text \<open>
  C6. When the blame of the file is \<^verbatim>\<open>undefined\<close> or has no lines, \<^verbatim>\<open>provideCodeLenses\<close>
  returns the empty lens array, whatever the symbols are: no symbol is looked at (an
  exception of the symbol pass cannot occur), no lens and no blame function is created.
\<close>

theorem provideCodeLenses_without_blame:
  assumes "case blame of None \<Rightarrow> True | Some b \<Rightarrow> blame_lines b = []"
  shows "snd (provideCodeLenses this document gitUri blame symbols) = Inr ([], [])"
  using assms by (simp add: provideCodeLenses_def Let_def split: option.splits)

text \<open>
  The symbol of the example starts on a line that the document does not have: with a
  blame the pass throws, without one the symbol is never reached.
\<close>

theorem provideCodeLenses_without_blame_witness:
  "snd (provideCodeLenses ex_provider ex_document ex_uri None
          [ex_symbol SymbolKind_Class 9 9]) = Inr ([], []) \<and>
   snd (provideCodeLenses ex_provider ex_document ex_uri (Some (ex_blame\<lparr>blame_lines := []\<rparr>))
          [ex_symbol SymbolKind_Class 9 9]) = Inr ([], []) \<and>
   snd (provideCodeLenses ex_provider ex_document ex_uri (Some ex_blame)
          [ex_symbol SymbolKind_Class 9 9]) = Inl IllegalLine"
proof -
  have a: "snd (provideCodeLenses ex_provider ex_document ex_uri None
                  [ex_symbol SymbolKind_Class 9 9]) = Inr ([], [])"
    using provideCodeLenses_without_blame
      [of None ex_provider ex_document ex_uri "[ex_symbol SymbolKind_Class 9 9]"]
    by simp
  have b: "snd (provideCodeLenses ex_provider ex_document ex_uri
                  (Some (ex_blame\<lparr>blame_lines := []\<rparr>))
                  [ex_symbol SymbolKind_Class 9 9]) = Inr ([], [])"
    using provideCodeLenses_without_blame
      [of "Some (ex_blame\<lparr>blame_lines := []\<rparr>)" ex_provider ex_document ex_uri
          "[ex_symbol SymbolKind_Class 9 9]"]
    by simp
  have c: "snd (provideCodeLenses ex_provider ex_document ex_uri (Some ex_blame)
                  [ex_symbol SymbolKind_Class 9 9]) = Inl IllegalLine"
    by (simp add: pass_defs range_defs ex_defs)
  from a b c show ?thesis by simp
qed

subsection \<open>Resolving a lens of a dirty document\<close>

text \<open>
  C7. When the document is dirty, resolving a recent-change lens sets its command to a
  title alone, with no command identifier and no arguments, and does not call the blame
  function. The title is one of the three texts for unsaved changes: the combined one when
  both kinds are enabled, the recent-change one when only that kind is enabled, and the
  authors one otherwise.
\<close>

theorem resolve_dirty_recentChange:
  assumes "documentIsDirty this"
  shows "resolveGitRecentChangeCodeLens g this lens st =
     Inr (lens\<lparr>lens_command := Some
            \<lparr>cmd_title =
               (if recentChange_enabled (config this) \<and> authors_enabled (config this)
                then unsaved_recentChangeAndAuthors (config this)
                else if recentChange_enabled (config this)
                then unsaved_recentChangeOnly (config this)
                else unsaved_authorsOnly (config this)),
             cmd_command = None, cmd_arguments = None\<rparr>\<rparr>, st)"
  using assms
  by (simp add: resolveGitRecentChangeCodeLens_def set_command_def unsavedChanges_title_def)

theorem resolve_dirty_recentChange_witness:
  "resolveGitRecentChangeCodeLens ex_getBlameForRangeSync (ex_provider\<lparr>documentIsDirty := True\<rparr>)
     ex_lens [] =
   Inr (ex_lens\<lparr>lens_command := Some
          \<lparr>cmd_title = ''both'', cmd_command = None, cmd_arguments = None\<rparr>\<rparr>, [])"
  using resolve_dirty_recentChange
    [of "ex_provider\<lparr>documentIsDirty := True\<rparr>" ex_getBlameForRangeSync ex_lens "[]"]
  by (simp add: ex_provider_def ex_config_def)

subsection \<open>Commands of an uncommitted commit\<close>

lemma apply_command_with_commit:
  "\<exists>lens'. apply_command k title lens blame (Some c) = Inr lens' \<and>
     command_of lens' =
       (if isUncommitted c \<and> (k = ShowQuickCommitDetails \<or> k = ShowQuickCommitFileDetails)
        then Some (Literal []) else configured_command k lens)"
  by (cases k) (simp_all add: apply_defs configured_command_def)

lemma apply_command_without_commit:
  assumes "k \<noteq> DiffWithPrevious \<or> line (start (lens_range lens)) < length (allLines blame)"
  shows "\<exists>lens'. apply_command k title lens blame None = Inr lens' \<and>
     command_of lens' = configured_command k lens"
  using assms by (cases k) (simp_all add: apply_defs configured_command_def)

text \<open>
  C8. Resolving a recent-change lens of a clean document passes the first commit of the
  blame to the configured action: when that commit is flagged uncommitted, the quick
  commit details and the quick commit file details actions give the lens the empty string
  as its command, and every other configured action gives it its own command identifier,
  as each of the eight does for a commit that is not flagged. Resolving an authors lens
  passes no commit, so every action gives it its own command identifier.
\<close>

theorem uncommitted_commit_commands:
  assumes "getBlame g lens st = Some (Some blame, st1)"
  shows "(lens_class lens = GitRecentChangeCodeLens \<and> \<not> documentIsDirty this \<and>
          Iterables_first (map snd (blame_commits blame)) = Some c \<longrightarrow>
            (\<exists>lens'. resolveCodeLens g this lens st = Inr (lens', st1) \<and>
               command_of lens' =
                 (if isUncommitted c \<and>
                     (recentChange_command (config this) = ShowQuickCommitDetails \<or>
                      recentChange_command (config this) = ShowQuickCommitFileDetails)
                  then Some (Literal [])
                  else configured_command (recentChange_command (config this)) lens))) \<and>
         (lens_class lens = GitAuthorsCodeLens \<and>
          Iterables_first (map snd (blame_authors blame)) = Some a \<and>
          (authors_command (config this) \<noteq> DiffWithPrevious \<or>
           line (start (lens_range lens)) < length (allLines blame)) \<longrightarrow>
            (\<exists>lens'. resolveCodeLens g this lens st = Inr (lens', st1) \<and>
               command_of lens' = configured_command (authors_command (config this)) lens))"
proof (intro conjI impI)
  assume h: "lens_class lens = GitRecentChangeCodeLens \<and> \<not> documentIsDirty this \<and>
          Iterables_first (map snd (blame_commits blame)) = Some c"
  let ?title0 = "commit_author c @ '', '' @ commit_fromNow c"
  let ?title = "if codeLens_debug (config this)
                then ?title0 @ debug_prefix lens @ ''Commit ('' @ commit_shortSha c @ '')]''
                else ?title0"
  from apply_command_with_commit [of "recentChange_command (config this)" ?title lens blame c]
  obtain lens' where
    a: "apply_command (recentChange_command (config this)) ?title lens blame (Some c) = Inr lens'"
    and c: "command_of lens' =
       (if isUncommitted c \<and>
           (recentChange_command (config this) = ShowQuickCommitDetails \<or>
            recentChange_command (config this) = ShowQuickCommitFileDetails)
        then Some (Literal []) else configured_command (recentChange_command (config this)) lens)"
    by blast
  from h assms a have "resolveCodeLens g this lens st = Inr (lens', st1)"
    by (cases "codeLens_debug (config this)")
       (simp_all add: resolveCodeLens_def resolveGitRecentChangeCodeLens_def Let_def)
  with c show "\<exists>lens'. resolveCodeLens g this lens st = Inr (lens', st1) \<and>
               command_of lens' =
                 (if isUncommitted c \<and>
                     (recentChange_command (config this) = ShowQuickCommitDetails \<or>
                      recentChange_command (config this) = ShowQuickCommitFileDetails)
                  then Some (Literal [])
                  else configured_command (recentChange_command (config this)) lens)"
    by blast
next
  assume h: "lens_class lens = GitAuthorsCodeLens \<and>
          Iterables_first (map snd (blame_authors blame)) = Some a \<and>
          (authors_command (config this) \<noteq> DiffWithPrevious \<or>
           line (start (lens_range lens)) < length (allLines blame))"
  let ?count = "length (blame_authors blame)"
  let ?title0 = "string_of_nat ?count @ '' '' @
                             (if ?count > 1 then ''authors'' else ''author'') @ '' ('' @
                             author_name a @
                             (if ?count > 1 then '' and others'' else []) @ '')''"
  let ?title = "if codeLens_debug (config this)
                             then ?title0 @ debug_prefix lens @ ''Authors ('' @
                                  Iterables_join (map (author_name \<circ> snd) (blame_authors blame))
                                    '', '' @ '')]''
                             else ?title0"
  from h have d: "authors_command (config this) \<noteq> DiffWithPrevious \<or>
           line (start (lens_range lens)) < length (allLines blame)"
    by simp
  from apply_command_without_commit [OF d, of ?title]
  obtain lens' where
    a: "apply_command (authors_command (config this)) ?title lens blame None = Inr lens'"
    and c: "command_of lens' = configured_command (authors_command (config this)) lens"
    by blast
  from h assms a have "resolveCodeLens g this lens st = Inr (lens', st1)"
    by (cases "codeLens_debug (config this)"; cases "1 < length (blame_authors blame)")
       (simp_all add: resolveCodeLens_def resolveGitAuthorsCodeLens_def Let_def)
  with c show "\<exists>lens'. resolveCodeLens g this lens st = Inr (lens', st1) \<and>
               command_of lens' = configured_command (authors_command (config this)) lens"
    by blast
qed

lemma ex_getBlame:
  "getBlame ex_getBlameForRangeSync ex_lens [fresh_cell ex_blame ex_uri (new_Range4 1 0 1 1)] =
     Some (Some ex_blameLines,
           [called_cell ex_getBlameForRangeSync (fresh_cell ex_blame ex_uri (new_Range4 1 0 1 1))])"
  by (simp add: getBlame_def once_call_def ex_lens_def fresh_cell_def called_cell_def
      ex_getBlameForRangeSync_def Let_def)

lemma ex_getBlame_authors:
  "getBlame ex_getBlameForRangeSync ex_class_authors_lens
     [fresh_cell ex_blame ex_uri (new_Range4 1 0 2 1)] =
     Some (Some ex_blameLines,
           [called_cell ex_getBlameForRangeSync (fresh_cell ex_blame ex_uri (new_Range4 1 0 2 1))])"
  by (simp add: getBlame_def once_call_def ex_class_authors_lens_def new_CodeLens_def
      fresh_cell_def called_cell_def ex_getBlameForRangeSync_def Let_def)

theorem uncommitted_commit_commands_witness:
  "isUncommitted ex_commit \<and>
   recentChange_command (config ex_provider) = ShowQuickCommitDetails \<and>
   (\<exists>lens'. resolveCodeLens ex_getBlameForRangeSync ex_provider ex_lens
              [fresh_cell ex_blame ex_uri (new_Range4 1 0 1 1)] =
              Inr (lens', [called_cell ex_getBlameForRangeSync
                             (fresh_cell ex_blame ex_uri (new_Range4 1 0 1 1))]) \<and>
            command_of lens' = Some (Literal [])) \<and>
   authors_command (config ex_provider) = BlameAnnotate \<and>
   (\<exists>lens'. resolveCodeLens ex_getBlameForRangeSync ex_provider ex_class_authors_lens
              [fresh_cell ex_blame ex_uri (new_Range4 1 0 2 1)] =
              Inr (lens', [called_cell ex_getBlameForRangeSync
                             (fresh_cell ex_blame ex_uri (new_Range4 1 0 2 1))]) \<and>
            command_of lens' = Some Commands_ToggleFileBlame)"
proof -
  have u: "isUncommitted ex_commit"
    by (simp add: ex_commit_def)
  have k: "recentChange_command (config ex_provider) = ShowQuickCommitDetails"
    by (simp add: ex_provider_def ex_config_def)
  have h: "lens_class ex_lens = GitRecentChangeCodeLens \<and> \<not> documentIsDirty ex_provider \<and>
          Iterables_first (map snd (blame_commits ex_blameLines)) = Some ex_commit"
    by (simp add: ex_lens_def ex_provider_def ex_blameLines_def Iterables_first_def)
  from uncommitted_commit_commands [OF ex_getBlame, THEN conjunct1, THEN mp, OF h] u k
  have r: "\<exists>lens'. resolveCodeLens ex_getBlameForRangeSync ex_provider ex_lens
              [fresh_cell ex_blame ex_uri (new_Range4 1 0 1 1)] =
              Inr (lens', [called_cell ex_getBlameForRangeSync
                             (fresh_cell ex_blame ex_uri (new_Range4 1 0 1 1))]) \<and>
            command_of lens' = Some (Literal [])"
    by simp
  have ka: "authors_command (config ex_provider) = BlameAnnotate"
    by (simp add: ex_provider_def ex_config_def)
  have ha: "lens_class ex_class_authors_lens = GitAuthorsCodeLens \<and>
          Iterables_first (map snd (blame_authors ex_blameLines)) = Some \<lparr>author_name = ''A''\<rparr> \<and>
          (authors_command (config ex_provider) \<noteq> DiffWithPrevious \<or>
           line (start (lens_range ex_class_authors_lens)) < length (allLines ex_blameLines))"
    by (simp add: ex_class_authors_lens_def new_CodeLens_def ex_provider_def ex_config_def
        ex_blameLines_def Iterables_first_def)
  from uncommitted_commit_commands [OF ex_getBlame_authors, THEN conjunct2, THEN mp, OF ha] ka
  have a: "\<exists>lens'. resolveCodeLens ex_getBlameForRangeSync ex_provider ex_class_authors_lens
              [fresh_cell ex_blame ex_uri (new_Range4 1 0 2 1)] =
              Inr (lens', [called_cell ex_getBlameForRangeSync
                             (fresh_cell ex_blame ex_uri (new_Range4 1 0 2 1))]) \<and>
            command_of lens' = Some Commands_ToggleFileBlame"
    by (simp add: configured_command_def)
  from u k r ka a show ?thesis
    by blast
qed

subsection \<open>A failing fetch of a revision\<close>

text \<open>
  C9. When the fetch of the text of a revision fails, \<^verbatim>\<open>provideTextDocumentContent\<close>
  returns \<^verbatim>\<open>undefined\<close> and does not reject. It has fetched once, logged the exception
  once, and shown one error message, which names the shortened revision and the path of
  the file relative to the repository.
\<close>

theorem failing_fetch:
  assumes "data_sha data \<noteq> fakeSha env"
    and "fileName = (case data_originalFileName data of
                       None \<Rightarrow> data_fileName data
                     | Some n \<Rightarrow> if n = [] then data_fileName data else n)"
    and "getVersionedFileText env (data_repoPath data) fileName (data_sha data) = Inl ex"
  shows "provideTextDocumentContent env data =
     (Inr None,
      [Fetch_getVersionedFileText (data_repoPath data) fileName (data_sha data),
       Logger_error ex ''GitContentProvider'' ''getVersionedFileText'',
       Window_showErrorMessage
         (''Unable to show Git revision '' @ shortenSha env (data_sha data) @ '' of '' @
          [CHR 0x27] @ path_relative env (data_repoPath data) fileName @ [CHR 0x27])])"
  using assms by (simp add: provideTextDocumentContent_def Let_def)

theorem failing_fetch_witness:
  "provideTextDocumentContent ex_env ex_data =
     (Inr None,
      [Fetch_getVersionedFileText ''r'' ''a.ts'' ''abcd'',
       Logger_error ''gone'' ''GitContentProvider'' ''getVersionedFileText'',
       Window_showErrorMessage
         (''Unable to show Git revision ab of '' @ [CHR 0x27] @ ''a.ts'' @ [CHR 0x27])])"
proof -
  have a: "data_sha ex_data \<noteq> fakeSha ex_env"
    by (simp add: ex_env_def ex_data_def)
  have b: "''a.ts'' = (case data_originalFileName ex_data of
                         None \<Rightarrow> data_fileName ex_data
                       | Some n \<Rightarrow> if n = [] then data_fileName ex_data else n)"
    by (simp add: ex_data_def)
  have c: "getVersionedFileText ex_env (data_repoPath ex_data) ''a.ts'' (data_sha ex_data) =
             Inl ''gone''"
    by (simp add: ex_env_def)
  have d: "shortenSha ex_env ''abcd'' = ''ab''"
    by (simp add: ex_env_def)
  have e: "path_relative ex_env ''r'' ''a.ts'' = ''a.ts''"
    by (simp add: ex_env_def)
  have f: "data_repoPath ex_data = ''r''" "data_sha ex_data = ''abcd''"
    by (simp_all add: ex_data_def)
  show ?thesis
    using failing_fetch [OF a b c] by (simp add: d e f)
qed

subsection \<open>One call of \<^verbatim>\<open>_provideCodeLens\<close>\<close>


lemma new_Range_lines:
  "line a = n \<Longrightarrow> line b = n \<Longrightarrow>
   line (start (new_Range a b)) = n \<and> line (end_pos (new_Range a b)) = n"
  by (simp add: new_Range_def)

lemma lineAt_Inr:
  assumes "lineAt document p = Inr ln"
  shows "lineNumber ln = line p" "line (start (text_range ln)) = line p"
    "line (end_pos (text_range ln)) = line p"
  using assms by (auto simp: lineAt_def new_Range4_def new_Range_def split: if_splits)

lemma Range_with_lines:
  "line (start r) = n \<Longrightarrow> line (end_pos r) = n \<Longrightarrow> line p = n \<Longrightarrow>
   line (start (Range_with r p)) = n \<and> line (end_pos (Range_with r p)) = n"
  by (simp add: Range_with_def new_Range_lines)

lemma new_Position_Inr2:
  "new_Position l c = Inr p \<Longrightarrow> 0 \<le> c \<and> 0 \<le> l \<and> line p = nat l"
  by (auto simp: new_Position_def split: if_splits)

lemma recentChange_block_Inr:
  assumes "recentChange_block this gitUri symbol blame r ln (lenses, st) = Inr (fn, sc, lenses1, st1)"
    and "line (start (text_range ln)) = line (start (sym_range symbol))"
    and "line (end_pos (text_range ln)) = line (start (sym_range symbol))"
  shows "if documentIsDirty this \<or> recentChange_enabled (config this)
         then fn = Some (length st) \<and> st1 = st @ [fresh_cell blame gitUri r] \<and>
              (\<exists>x. lenses1 = lenses @ [x] \<and>
                   is_symbol_lens GitRecentChangeCodeLens gitUri symbol r (length st) x) \<and> 0 < sc
         else fn = None \<and> st1 = st \<and> lenses1 = lenses"
proof (cases "documentIsDirty this \<or> recentChange_enabled (config this)")
  case False
  then show ?thesis using assms(1)
    by (simp add: recentChange_block_def Let_def)
next
  case True
  let ?sc = "int (character (end_pos (text_range ln))) - 1"
  from True assms(1) obtain p where p: "new_Position (int (line (start (text_range ln)))) ?sc = Inr p"
    by (cases "new_Position (int (line (start (text_range ln)))) ?sc")
       (simp_all add: recentChange_block_def Let_def Functions_once_def)
  from new_Position_Inr2 [OF p] have lp: "line p = line (start (sym_range symbol))" and sc0: "0 \<le> ?sc"
    using assms(2) by simp_all
  from True assms(1) p have
    "fn = Some (length st)" "sc = ?sc + 1" "st1 = st @ [fresh_cell blame gitUri r]"
    "lenses1 = lenses @ [new_CodeLens GitRecentChangeCodeLens (length st) gitUri
                           (sym_kind symbol) r False (Range_with (text_range ln) p)]"
    by (auto simp add: recentChange_block_def Let_def Functions_once_def fresh_cell_def)
  then show ?thesis using True sc0 Range_with_lines [OF assms(2) assms(3) lp]
    by (simp add: is_symbol_lens_def new_CodeLens_def)
qed

lemma authors_block_Inr:
  assumes "authors_block this gitUri document symbol blame r ln fn sc (lenses, st) = Inr (lenses1, st1)"
    and "line (start (text_range ln)) = line (start (sym_range symbol))"
    and "line (end_pos (text_range ln)) = line (start (sym_range symbol))"
  shows "if authors_enabled (config this) \<and> multiline_of document symbol r
         then st1 = (case fn of None \<Rightarrow> st @ [fresh_cell blame gitUri r] | Some f \<Rightarrow> st) \<and>
              (if documentIsDirty this then lenses1 = lenses
               else (\<exists>x. lenses1 = lenses @ [x] \<and>
                     is_symbol_lens GitAuthorsCodeLens gitUri symbol r
                       (case fn of None \<Rightarrow> length st | Some f \<Rightarrow> f) x))
         else st1 = st \<and> lenses1 = lenses"
proof (cases "authors_enabled (config this) \<and> multiline_of document symbol r")
  case False
  then show ?thesis using assms(1)
    by (auto simp add: authors_block_def split: if_splits)
next
  case True
  show ?thesis
  proof (cases "documentIsDirty this")
    case dirty: True
    with True assms(1) show ?thesis
      by (auto simp add: authors_block_def Functions_once_def fresh_cell_def split: option.splits)
  next
    case clean: False
    from True clean assms(1) obtain p where p: "new_Position (int (line (start (text_range ln)))) sc = Inr p"
      by (cases "new_Position (int (line (start (text_range ln)))) sc")
         (auto simp add: authors_block_def Functions_once_def split: option.splits)
    from new_Position_Inr2 [OF p] have lp: "line p = line (start (sym_range symbol))"
      using assms(2) by simp
    from True clean assms(1) p have
      "st1 = (case fn of None \<Rightarrow> st @ [fresh_cell blame gitUri r] | Some f \<Rightarrow> st)"
      "lenses1 = lenses @ [new_CodeLens GitAuthorsCodeLens
                             (case fn of None \<Rightarrow> length st | Some f \<Rightarrow> f) gitUri
                             (sym_kind symbol) r False (Range_with (text_range ln) p)]"
      by (auto simp add: authors_block_def Functions_once_def fresh_cell_def split: option.splits)
    then show ?thesis using True clean Range_with_lines [OF assms(2) assms(3) lp]
      by (simp add: is_symbol_lens_def new_CodeLens_def)
  qed
qed


lemma provideCodeLens_Inr:
  assumes "provideCodeLens this gitUri document symbol ll blame (lenses, st) = Inr (lenses', st')"
  shows "case validateSymbolAndGetBlameRange document symbol ll of
           None \<Rightarrow> lenses' = lenses \<and> st' = st
         | Some r \<Rightarrow>
             if lenses \<noteq> [] \<and> lens_line (last lenses) = symbol_line symbol
             then lenses' = lenses \<and> st' = st
             else \<exists>rcs aus. lenses' = lenses @ rcs @ aus \<and>
                    (if documentIsDirty this \<or> recentChange_enabled (config this)
                     then \<exists>x. rcs = [x] \<and>
                            is_symbol_lens GitRecentChangeCodeLens gitUri symbol r (length st) x
                     else rcs = []) \<and>
                    (if authors_enabled (config this) \<and> \<not> documentIsDirty this \<and>
                        multiline_of document symbol r
                     then \<exists>x. aus = [x] \<and>
                            is_symbol_lens GitAuthorsCodeLens gitUri symbol r (length st) x
                     else aus = []) \<and>
                    st' = (if rcs @ aus = [] then st else st @ [fresh_cell blame gitUri r])"
proof (cases "validateSymbolAndGetBlameRange document symbol ll")
  case None
  then show ?thesis using assms by (simp add: provideCodeLens_def)
next
  case (Some r)
  from Some assms obtain ln where ln: "lineAt document (start (sym_range symbol)) = Inr ln"
    by (cases "lineAt document (start (sym_range symbol))") (simp_all add: provideCodeLens_def)
  note L = lineAt_Inr [OF ln]
  show ?thesis
  proof (cases "lenses \<noteq> [] \<and> lens_line (last lenses) = symbol_line symbol")
    case True
    then show ?thesis using Some assms ln L
      by (simp add: provideCodeLens_def lens_line_def symbol_line_def)
  next
    case False
    from False Some assms ln L obtain fn sc lenses1 st1 where
      rc: "recentChange_block this gitUri symbol blame r ln (lenses, st) = Inr (fn, sc, lenses1, st1)"
      and au: "authors_block this gitUri document symbol blame r ln fn sc (lenses1, st1) = Inr (lenses', st')"
      by (cases "recentChange_block this gitUri symbol blame r ln (lenses, st)")
         (auto simp add: provideCodeLens_def lens_line_def symbol_line_def split: if_splits)
    note R = recentChange_block_Inr [OF rc L(2) L(3)]
    note A = authors_block_Inr [OF au L(2) L(3)]
    show ?thesis
    proof (cases "documentIsDirty this \<or> recentChange_enabled (config this)")
      case rcT: True
      with R obtain x where x: "fn = Some (length st)" "st1 = st @ [fresh_cell blame gitUri r]"
        "lenses1 = lenses @ [x]" "is_symbol_lens GitRecentChangeCodeLens gitUri symbol r (length st) x"
        by auto
      show ?thesis
      proof (cases "authors_enabled (config this) \<and> \<not> documentIsDirty this \<and> multiline_of document symbol r")
        case True
        with A x obtain y where "st' = st1" "lenses' = lenses1 @ [y]"
          "is_symbol_lens GitAuthorsCodeLens gitUri symbol r (length st) y"
          by auto
        with x True rcT False Some show ?thesis
          by (simp del: append_assoc) (rule exI [of _ "[x]"], simp)
      next
        case F2: False
        with A x have "st' = st1" "lenses' = lenses1"
          by (auto split: if_splits)
        with x F2 rcT False Some show ?thesis
          by simp
      qed
    next
      case rcF: False
      with R have x: "fn = None" "st1 = st" "lenses1 = lenses"
        by auto
      show ?thesis
      proof (cases "authors_enabled (config this) \<and> \<not> documentIsDirty this \<and> multiline_of document symbol r")
        case True
        with A x obtain y where "st' = st @ [fresh_cell blame gitUri r]" "lenses' = lenses @ [y]"
          "is_symbol_lens GitAuthorsCodeLens gitUri symbol r (length st) y"
          by auto
        with x True rcF False Some show ?thesis
          by simp
      next
        case F2: False
        with A x rcF have "st' = st" "lenses' = lenses"
          by (auto split: if_splits)
        with x F2 rcF False Some show ?thesis
          by simp
      qed
    qed
  qed
qed


lemma lineCount_pos: "0 < lineCount d"
  by (simp add: lineCount_def)

lemma validatePosition_line:
  "line (validatePosition d p) = (if lineCount d \<le> line p then lineCount d - 1 else line p)"
  by (simp add: validatePosition_def)

lemma new_Range_line_le:
  "line a \<le> line b \<Longrightarrow> line (start (new_Range a b)) = line a \<and> line (end_pos (new_Range a b)) = line b"
  by (auto simp: new_Range_def isBefore_def)

lemma wholeFileRange_lines:
  "line (start (wholeFileRange d)) = 0"
  "lineCount d \<le> 1000001 \<Longrightarrow> line (end_pos (wholeFileRange d)) = lineCount d - 1"
proof -
  let ?s = "validatePosition d \<lparr>line = 0, character = 1000000\<rparr>"
  let ?e = "validatePosition d \<lparr>line = 1000000, character = 1000000\<rparr>"
  have w: "wholeFileRange d = new_Range ?s ?e"
    by (simp add: wholeFileRange_def validateRange_def new_Range4_def new_Range_def isBefore_def)
  have s: "line ?s = 0"
    using lineCount_pos [of d] by (simp add: validatePosition_line)
  have le: "line ?s \<le> line ?e"
    using s by simp
  from new_Range_line_le [OF le] s w show "line (start (wholeFileRange d)) = 0"
    by simp
  assume "lineCount d \<le> 1000001"
  then have "line ?e = lineCount d - 1"
    by (auto simp add: validatePosition_line)
  with new_Range_line_le [OF le] w show "line (end_pos (wholeFileRange d)) = lineCount d - 1"
    by simp
qed

lemma validate_File:
  assumes "validateSymbolAndGetBlameRange document symbol ll = Some r"
    and "sym_kind symbol = SymbolKind_File"
  shows "r = wholeFileRange document"
  using assms
  by (auto simp add: validateSymbolAndGetBlameRange_def kind_switch_def Let_def split: if_splits)

lemma validate_Package:
  assumes "validateSymbolAndGetBlameRange document symbol ll = Some r"
    and "sym_kind symbol = SymbolKind_Package"
  shows "r = (if line (start (sym_range symbol)) = 0 \<and> line (end_pos (sym_range symbol)) = 0
              then wholeFileRange document else sym_range symbol)"
  using assms
  by (auto simp add: validateSymbolAndGetBlameRange_def kind_switch_def Let_def split: if_splits)

lemma provideCodeLens_new_lenses:
  assumes "provideCodeLens this gitUri document symbol ll blame (lenses, st) = Inr (lenses', st')"
    and "l \<in> set (drop (length lenses) lenses')"
  shows "\<exists>r c. validateSymbolAndGetBlameRange document symbol ll = Some r \<and>
           is_symbol_lens c gitUri symbol r (length st) l \<and>
           (lenses = [] \<or> lens_line (last lenses) \<noteq> symbol_line symbol)"
proof (cases "validateSymbolAndGetBlameRange document symbol ll")
  case None
  with provideCodeLens_Inr [OF assms(1)] assms(2) show ?thesis by simp
next
  case (Some r)
  show ?thesis
  proof (cases "lenses \<noteq> [] \<and> lens_line (last lenses) = symbol_line symbol")
    case True
    with Some provideCodeLens_Inr [OF assms(1)] assms(2) show ?thesis by simp
  next
    case False
    with Some provideCodeLens_Inr [OF assms(1)] obtain rcs aus where
      n: "lenses' = lenses @ rcs @ aus"
      and r: "if documentIsDirty this \<or> recentChange_enabled (config this)
                     then \<exists>x. rcs = [x] \<and>
                            is_symbol_lens GitRecentChangeCodeLens gitUri symbol r (length st) x
                     else rcs = []"
      and a: "if authors_enabled (config this) \<and> \<not> documentIsDirty this \<and>
                        multiline_of document symbol r
                     then \<exists>x. aus = [x] \<and>
                            is_symbol_lens GitAuthorsCodeLens gitUri symbol r (length st) x
                     else aus = []"
      by auto
    from n assms(2) have "l \<in> set rcs \<or> l \<in> set aus" by auto
    then show ?thesis
    proof
      assume "l \<in> set rcs"
      with r have "is_symbol_lens GitRecentChangeCodeLens gitUri symbol r (length st) l"
        by (auto split: if_splits)
      with Some False show ?thesis by blast
    next
      assume "l \<in> set aus"
      with a have "is_symbol_lens GitAuthorsCodeLens gitUri symbol r (length st) l"
        by (auto split: if_splits)
      with Some False show ?thesis by blast
    qed
  qed
qed

subsection \<open>The blame range of file and package symbols\<close>

text \<open>
  C3, amended. Every lens that \<^verbatim>\<open>_provideCodeLens\<close> pushes for a \<^verbatim>\<open>File\<close> symbol, and for a
  \<^verbatim>\<open>Package\<close> symbol whose reported range starts and ends on line 0, has the validated
  range \<^verbatim>\<open>(0, 1000000)-(1000000, 1000000)\<close> as its blame range: it starts on line 0 and,
  in a document of at most 1000001 lines, ends on the last line. A lens of a \<^verbatim>\<open>Package\<close>
  symbol anywhere else keeps the range the symbol reports.
\<close>

theorem file_and_package_blame_range:
  assumes "provideCodeLens this gitUri document symbol ll blame (lenses, st) = Inr (lenses', st')"
    and "l \<in> set (drop (length lenses) lenses')"
  shows "(sym_kind symbol = SymbolKind_File \<or>
          sym_kind symbol = SymbolKind_Package \<and> line (start (sym_range symbol)) = 0 \<and>
            line (end_pos (sym_range symbol)) = 0 \<longrightarrow>
            lens_blameRange l = wholeFileRange document \<and>
            line (start (lens_blameRange l)) = 0 \<and>
            (lineCount document \<le> 1000001 \<longrightarrow>
               line (end_pos (lens_blameRange l)) = lineCount document - 1)) \<and>
         (sym_kind symbol = SymbolKind_Package \<and>
          \<not> (line (start (sym_range symbol)) = 0 \<and> line (end_pos (sym_range symbol)) = 0) \<longrightarrow>
            lens_blameRange l = sym_range symbol)"
proof -
  from provideCodeLens_new_lenses [OF assms] obtain r c where
    v: "validateSymbolAndGetBlameRange document symbol ll = Some r"
    and "is_symbol_lens c gitUri symbol r (length st) l"
    by blast
  then have b: "lens_blameRange l = r"
    by (simp add: is_symbol_lens_def)
  show ?thesis
    using validate_File [OF v] validate_Package [OF v] b wholeFileRange_lines [of document]
    by auto
qed

text \<open>A \<^verbatim>\<open>File\<close> symbol on line 2 of a document of four lines.\<close>

lemma ex_file_step:
  "provideCodeLens ex_provider ex_uri ex_document (ex_symbol SymbolKind_File 2 2) ex_location
     ex_blame ([], []) =
   Inr ([ex_file_lens GitRecentChangeCodeLens 2, ex_file_lens GitAuthorsCodeLens 3],
        [fresh_cell ex_blame ex_uri (new_Range4 0 1 3 1)])"
  by (simp add: pass_defs range_defs ex_defs ex_file_lens_def fresh_cell_def)

theorem file_and_package_blame_range_witness:
  "lens_blameRange (ex_file_lens GitAuthorsCodeLens 3) = wholeFileRange ex_document \<and>
   line (start (lens_blameRange (ex_file_lens GitAuthorsCodeLens 3))) = 0 \<and>
   line (end_pos (lens_blameRange (ex_file_lens GitAuthorsCodeLens 3))) = 3"
proof -
  have m: "ex_file_lens GitAuthorsCodeLens 3 \<in>
             set (drop (length ([] :: CodeLens list))
                    [ex_file_lens GitRecentChangeCodeLens 2, ex_file_lens GitAuthorsCodeLens 3])"
    by simp
  have k: "sym_kind (ex_symbol SymbolKind_File 2 2) = SymbolKind_File"
    by (simp add: ex_symbol_def)
  have c: "lineCount ex_document \<le> 1000001" "lineCount ex_document - 1 = 3"
    by (simp_all add: ex_document_def lineCount_def)
  from file_and_package_blame_range [OF ex_file_step m] k c show ?thesis
    by metis
qed

text \<open>
  C3 as stated fails for a \<^verbatim>\<open>Package\<close> symbol that is not on line 0: on line 1 of the
  example document its lens keeps the range of the symbol, not the range of the document.
\<close>

theorem package_blame_range_counterexample:
  "map lens_blameRange
     (lenses_of (snd (provideCodeLenses ex_provider ex_document ex_uri (Some ex_blame)
                        [ex_symbol SymbolKind_Package 1 1]))) =
     [sym_range (ex_symbol SymbolKind_Package 1 1)] \<and>
   sym_range (ex_symbol SymbolKind_Package 1 1) \<noteq> wholeFileRange ex_document"
  by (simp add: pass_defs range_defs ex_defs lenses_of_def)

subsection \<open>When a symbol gets an authors lens\<close>


lemma multiline_of_iff:
  "multiline_of document symbol r \<longleftrightarrow>
     \<not> isSingleLine r \<or>
     languageId document = ''csharp'' \<and>
     sym_kind symbol \<in> {SymbolKind_Package, SymbolKind_Module, SymbolKind_Namespace,
       SymbolKind_Class, SymbolKind_Interface, SymbolKind_Constructor, SymbolKind_Method,
       SymbolKind_Function, SymbolKind_Enum}"
  by (cases "sym_kind symbol") (auto simp add: multiline_of_def)

text \<open>
  C4, amended. For a symbol that is eligible and not dropped, \<^verbatim>\<open>_provideCodeLens\<close> pushes a
  recent-change lens exactly when the document is dirty or that kind is enabled, and then
  an authors lens exactly when that kind is enabled, the document is not dirty, and the
  blame range spans more than one line or the language is \<^verbatim>\<open>csharp\<close> and the kind of the
  symbol is one of Package, Module, Namespace, Class, Interface, Constructor, Method,
  Function and Enum. So a one-line Function symbol of another language gets no authors
  lens, and its recent-change lens when that kind is enabled.
\<close>

theorem authors_lens_rule:
  assumes "provideCodeLens this gitUri document symbol ll blame (lenses, st) = Inr (lenses', st')"
    and "validateSymbolAndGetBlameRange document symbol ll = Some r"
    and "lenses = [] \<or> lens_line (last lenses) \<noteq> symbol_line symbol"
  shows "map lens_class (drop (length lenses) lenses') =
           (if documentIsDirty this \<or> recentChange_enabled (config this)
            then [GitRecentChangeCodeLens] else []) @
           (if authors_enabled (config this) \<and> \<not> documentIsDirty this \<and>
               (\<not> isSingleLine r \<or>
                languageId document = ''csharp'' \<and>
                sym_kind symbol \<in> {SymbolKind_Package, SymbolKind_Module, SymbolKind_Namespace,
                  SymbolKind_Class, SymbolKind_Interface, SymbolKind_Constructor,
                  SymbolKind_Method, SymbolKind_Function, SymbolKind_Enum})
            then [GitAuthorsCodeLens] else [])"
proof -
  from provideCodeLens_Inr [OF assms(1)] assms(2,3) obtain rcs aus where
    n: "lenses' = lenses @ rcs @ aus"
    and r: "if documentIsDirty this \<or> recentChange_enabled (config this)
            then \<exists>x. rcs = [x] \<and>
                   is_symbol_lens GitRecentChangeCodeLens gitUri symbol r (length st) x
            else rcs = []"
    and a: "if authors_enabled (config this) \<and> \<not> documentIsDirty this \<and>
               multiline_of document symbol r
            then \<exists>x. aus = [x] \<and>
                   is_symbol_lens GitAuthorsCodeLens gitUri symbol r (length st) x
            else aus = []"
    by auto
  from r have r': "map lens_class rcs =
      (if documentIsDirty this \<or> recentChange_enabled (config this)
       then [GitRecentChangeCodeLens] else [])"
    by (auto simp add: is_symbol_lens_def split: if_splits)
  from a have a': "map lens_class aus =
      (if authors_enabled (config this) \<and> \<not> documentIsDirty this \<and>
          multiline_of document symbol r
       then [GitAuthorsCodeLens] else [])"
    by (auto simp add: is_symbol_lens_def split: if_splits)
  from n have "map lens_class (drop (length lenses) lenses') = map lens_class rcs @ map lens_class aus"
    by simp
  then show ?thesis
    unfolding r' a' multiline_of_iff .
qed

lemma ex_function_step:
  "provideCodeLens ex_provider ex_uri ex_document (ex_symbol SymbolKind_Function 1 1) ex_location
     ex_blame ([], []) = Inr ([ex_lens], [fresh_cell ex_blame ex_uri (new_Range4 1 0 1 1)])"
  by (simp add: pass_defs range_defs ex_defs ex_lens_def fresh_cell_def)

lemma ex_function_valid:
  "validateSymbolAndGetBlameRange ex_document (ex_symbol SymbolKind_Function 1 1) ex_location =
     Some (new_Range4 1 0 1 1)"
  by (simp add: pass_defs ex_defs)

theorem authors_lens_rule_witness:
  "isSingleLine (new_Range4 1 0 1 1) \<and> languageId ex_document \<noteq> ''csharp'' \<and>
   map lens_class (drop (length ([] :: CodeLens list)) [ex_lens]) = [GitRecentChangeCodeLens]"
proof -
  have s: "isSingleLine (new_Range4 1 0 1 1)"
    by (simp add: range_defs)
  have g: "languageId ex_document \<noteq> ''csharp''"
    by (simp add: ex_document_def)
  have c: "recentChange_enabled (config ex_provider)"
    by (simp add: ex_provider_def ex_config_def)
  from authors_lens_rule [OF ex_function_step ex_function_valid] s g c show ?thesis
    by simp
qed

text \<open>
  C4 as stated fails for a container kind outside that list: in a \<^verbatim>\<open>csharp\<close> document a
  one-line \<^verbatim>\<open>Struct\<close> symbol, eligible through the containers location, gets the
  recent-change lens only, where a one-line \<^verbatim>\<open>Class\<close> symbol gets both.
\<close>

theorem csharp_struct_counterexample:
  "map lens_class
     (lenses_of (snd (provideCodeLenses ex_provider (ex_document\<lparr>languageId := ''csharp''\<rparr>)
                        ex_uri (Some ex_blame) [ex_symbol SymbolKind_Struct 1 1]))) =
     [GitRecentChangeCodeLens] \<and>
   map lens_class
     (lenses_of (snd (provideCodeLenses ex_provider (ex_document\<lparr>languageId := ''csharp''\<rparr>)
                        ex_uri (Some ex_blame) [ex_symbol SymbolKind_Class 1 1]))) =
     [GitRecentChangeCodeLens, GitAuthorsCodeLens]"
  by (simp add: pass_defs range_defs ex_defs lenses_of_def)

subsection \<open>One lens of a class per line\<close>

lemma new_Range4_lines:
  "line (start (new_Range4 n a n b)) = n" "line (end_pos (new_Range4 n a n b)) = n"
  by (simp_all add: new_Range4_def new_Range_def)

lemma documentLens_block_eq:
  "documentLens_block this gitUri document ll blame (lenses, st) =
     (if wantsDocumentLens ll \<and>
         find (\<lambda>l. line (start (lens_range l)) = 0 \<and> line (end_pos (lens_range l)) = 0)
           lenses = None
      then (lenses @
            (if documentIsDirty this \<or> recentChange_enabled (config this)
             then [new_CodeLens GitRecentChangeCodeLens (length st) gitUri SymbolKind_File
                     (wholeFileRange document) True
                     (new_Range4 0 0 0 (character (start (wholeFileRange document))))]
             else []) @
            (if authors_enabled (config this) \<and> \<not> documentIsDirty this
             then [new_CodeLens GitAuthorsCodeLens (length st) gitUri SymbolKind_File
                     (wholeFileRange document) True
                     (new_Range4 0 1 0 (character (start (wholeFileRange document))))]
             else []),
            if documentIsDirty this \<or> recentChange_enabled (config this) \<or>
               authors_enabled (config this)
            then st @ [fresh_cell blame gitUri (wholeFileRange document)] else st)
      else (lenses, st))"
  by (simp add: documentLens_block_def Let_def Functions_once_def fresh_cell_def)


lemma provideCodeLens_grows:
  assumes "provideCodeLens this gitUri document symbol ll blame (lenses, st) = Inr (lenses', st')"
  shows "\<exists>new. lenses' = lenses @ new \<and>
           (\<forall>l\<in>set new. lens_line l = symbol_line symbol \<and>
                          line (end_pos (lens_range l)) = symbol_line symbol) \<and>
           distinct (map lens_class new) \<and>
           (new \<noteq> [] \<longrightarrow> lenses = [] \<or> lens_line (last lenses) \<noteq> symbol_line symbol)"
proof (cases "validateSymbolAndGetBlameRange document symbol ll")
  case None
  with provideCodeLens_Inr [OF assms] show ?thesis by simp
next
  case (Some r)
  show ?thesis
  proof (cases "lenses \<noteq> [] \<and> lens_line (last lenses) = symbol_line symbol")
    case True
    with Some provideCodeLens_Inr [OF assms] show ?thesis by simp
  next
    case False
    with Some provideCodeLens_Inr [OF assms] obtain rcs aus where
      n: "lenses' = lenses @ rcs @ aus"
      and r: "if documentIsDirty this \<or> recentChange_enabled (config this)
              then \<exists>x. rcs = [x] \<and>
                     is_symbol_lens GitRecentChangeCodeLens gitUri symbol r (length st) x
              else rcs = []"
      and a: "if authors_enabled (config this) \<and> \<not> documentIsDirty this \<and>
                 multiline_of document symbol r
              then \<exists>x. aus = [x] \<and>
                     is_symbol_lens GitAuthorsCodeLens gitUri symbol r (length st) x
              else aus = []"
      by auto
    from r have r1: "\<forall>l\<in>set rcs. is_symbol_lens GitRecentChangeCodeLens gitUri symbol r (length st) l"
      and r2: "length rcs \<le> 1"
      by (auto split: if_splits)
    from a have a1: "\<forall>l\<in>set aus. is_symbol_lens GitAuthorsCodeLens gitUri symbol r (length st) l"
      and a2: "length aus \<le> 1"
      by (auto split: if_splits)
    have lines: "\<forall>l\<in>set (rcs @ aus). lens_line l = symbol_line symbol \<and>
                          line (end_pos (lens_range l)) = symbol_line symbol"
      using r1 a1 by (auto simp add: is_symbol_lens_def lens_line_def symbol_line_def)
    have d1: "distinct (map lens_class rcs)" using r2 by (cases rcs) auto
    have d2: "distinct (map lens_class aus)" using a2 by (cases aus) auto
    have "set (map lens_class rcs) \<inter> set (map lens_class aus) = {}"
      using r1 a1 by (auto simp add: is_symbol_lens_def)
    with d1 d2 have dist: "distinct (map lens_class (rcs @ aus))"
      by simp
    from n lines dist False show ?thesis
      by (intro exI [of _ "rcs @ aus"]) simp
  qed
qed

lemma sorted_last_max:
  "sorted (map f xs) \<Longrightarrow> x \<in> set xs \<Longrightarrow> f x \<le> f (last xs)"
  by (induction xs) (auto split: if_splits)

lemma provideCodeLens_line_inv:
  assumes "provideCodeLens this gitUri document symbol ll blame (lenses, st) = Inr (lenses', st')"
    and "line_inv lenses"
    and "\<forall>l\<in>set lenses. lens_line l \<le> symbol_line symbol"
  shows "line_inv lenses' \<and> (\<forall>l\<in>set lenses'. lens_line l \<le> symbol_line symbol)"
proof -
  from provideCodeLens_grows [OF assms(1)] obtain new where
    n: "lenses' = lenses @ new"
    and l: "\<forall>l\<in>set new. lens_line l = symbol_line symbol \<and>
                          line (end_pos (lens_range l)) = symbol_line symbol"
    and d: "distinct (map lens_class new)"
    and e: "new \<noteq> [] \<longrightarrow> lenses = [] \<or> lens_line (last lenses) \<noteq> symbol_line symbol"
    by blast
  show ?thesis
  proof (cases "new = []")
    case True
    with n assms(2,3) show ?thesis by simp
  next
    case False
    have below: "\<forall>x\<in>set lenses. lens_line x < symbol_line symbol"
    proof
      fix x assume x: "x \<in> set lenses"
      then have ne: "lenses \<noteq> []" by auto
      with e False have "lens_line (last lenses) \<noteq> symbol_line symbol" by simp
      moreover have "lens_line (last lenses) \<le> symbol_line symbol"
        using assms(3) ne by simp
      moreover have "lens_line x \<le> lens_line (last lenses)"
        using sorted_last_max [of lens_line lenses x] assms(2) x by (simp add: line_inv_def)
      ultimately show "lens_line x < symbol_line symbol" by simp
    qed
    have k: "map lens_key new = map (\<lambda>c. (c, symbol_line symbol)) (map lens_class new)"
      using l by (simp add: lens_key_def)
    have "distinct (map lens_key new)"
      unfolding k using d by (simp add: distinct_map inj_on_def)
    moreover have "set (map lens_key lenses) \<inter> set (map lens_key new) = {}"
      using below l by (fastforce simp add: lens_key_def)
    moreover have "map lens_line new = replicate (length new) (symbol_line symbol)"
      using l by (simp add: map_replicate_const [symmetric])
    then have "sorted (map lens_line new)"
      by (simp add: sorted_replicate)
    then have "sorted (map lens_line (lenses @ new))"
      using assms(2) below l by (auto simp add: line_inv_def sorted_append)
    ultimately show ?thesis
      using n assms(2,3) l by (auto simp add: line_inv_def)
  qed
qed

lemma forEach_line_inv:
  assumes "forEach_provideCodeLens this gitUri document ll blame symbols (lenses, st) =
             Inr (lenses', st')"
    and "sorted (map symbol_line symbols)"
    and "line_inv lenses"
    and "\<forall>l\<in>set lenses. \<forall>s\<in>set symbols. lens_line l \<le> symbol_line s"
  shows "line_inv lenses'"
  using assms
proof (induction symbols arbitrary: lenses st)
  case Nil
  then show ?case by simp
next
  case (Cons s ss)
  from Cons.prems(1) obtain l1 st1 where
    step: "provideCodeLens this gitUri document s ll blame (lenses, st) = Inr (l1, st1)"
    and rest: "forEach_provideCodeLens this gitUri document ll blame ss (l1, st1) = Inr (lenses', st')"
    by (cases "provideCodeLens this gitUri document s ll blame (lenses, st)") auto
  from Cons.prems(4) have b: "\<forall>l\<in>set lenses. lens_line l \<le> symbol_line s"
    by simp
  from provideCodeLens_line_inv [OF step Cons.prems(3) b] have
    i1: "line_inv l1" and b1: "\<forall>l\<in>set l1. lens_line l \<le> symbol_line s"
    by simp_all
  from Cons.prems(2) have srt: "sorted (map symbol_line ss)" and
    le: "\<forall>s'\<in>set ss. symbol_line s \<le> symbol_line s'"
    by simp_all
  from b1 le have "\<forall>l\<in>set l1. \<forall>s'\<in>set ss. lens_line l \<le> symbol_line s'"
    by (meson order_trans)
  from Cons.IH [OF rest srt i1 this] show ?case .
qed


lemma lens_key_new [simp]:
  "lens_key (new_CodeLens c fn gitUri k r f (new_Range4 n a n b)) = (c, n)"
  by (simp add: lens_key_def lens_line_def new_CodeLens_def new_Range4_lines)

lemma documentLens_block_distinct:
  assumes "line_inv lenses"
  shows "distinct (map lens_key (fst (documentLens_block this gitUri document ll blame (lenses, st))))"
proof (cases "wantsDocumentLens ll \<and>
         find (\<lambda>l. line (start (lens_range l)) = 0 \<and> line (end_pos (lens_range l)) = 0)
           lenses = None")
  case False
  have "documentLens_block this gitUri document ll blame (lenses, st) = (lenses, st)"
    unfolding documentLens_block_eq by (rule if_not_P) (rule False)
  with assms show ?thesis
    by (simp add: line_inv_def)
next
  case True
  then have "\<forall>l\<in>set lenses. \<not> (line (start (lens_range l)) = 0 \<and> line (end_pos (lens_range l)) = 0)"
    by (auto simp add: find_None_iff)
  with assms have "\<forall>l\<in>set lenses. lens_line l \<noteq> 0"
    by (auto simp add: line_inv_def lens_line_def)
  then have "\<forall>l\<in>set lenses. snd (lens_key l) \<noteq> 0"
    by (simp add: lens_key_def)
  then have n: "(c, 0) \<notin> lens_key ` set lenses" for c
    by (metis imageE snd_conv)
  from assms have d: "distinct (map lens_key lenses)"
    by (simp add: line_inv_def)
  from True d n show ?thesis
    by (simp add: documentLens_block_eq)
qed

lemma line_inv_Nil: "line_inv []"
  by (simp add: line_inv_def)

text \<open>
  What the check of the last lens does ensure: for a symbol list in the order of the
  document (start lines ascending), the lenses that \<^verbatim>\<open>provideCodeLenses\<close> returns never
  contain two lenses of the same class anchored on the same line.
\<close>

lemma one_lens_per_line_in_document_order:
  assumes "snd (provideCodeLenses this document gitUri blame symbols) = Inr (lenses, st)"
    and "sorted (map symbol_line symbols)"
  shows "distinct (map lens_key lenses)"
proof (cases "case blame of None \<Rightarrow> True | Some b \<Rightarrow> blame_lines b = []")
  case True
  then have "snd (provideCodeLenses this document gitUri blame symbols) = Inr ([], [])"
    by (simp add: provideCodeLenses_def Let_def split: option.splits)
  with assms(1) show ?thesis by simp
next
  case False
  then obtain b where b: "blame = Some b" "blame_lines b \<noteq> []"
    by (auto split: option.splits)
  let ?p = "this\<lparr>documentIsDirty := isDirty document\<rparr>"
  let ?ll = "languageLocations_of (config ?p) document"
  show ?thesis
  proof (cases "length (locations ?ll) = 1 \<and> CodeLensLocations_Document \<in> set (locations ?ll)")
    case True
    with b assms(1) have "lenses = fst (documentLens_block ?p gitUri document ?ll b ([], []))"
      by (auto simp add: provideCodeLenses_def Let_def)
    with documentLens_block_distinct [OF line_inv_Nil] show ?thesis
      by simp
  next
    case F: False
    with b assms(1) obtain l1 st1 where
      fe: "forEach_provideCodeLens ?p gitUri document ?ll b symbols ([], []) = Inr (l1, st1)"
      and r: "lenses = fst (documentLens_block ?p gitUri document ?ll b (l1, st1))"
      by (cases "forEach_provideCodeLens ?p gitUri document ?ll b symbols ([], [])")
         (auto simp add: provideCodeLenses_def Let_def split: if_splits)
    from forEach_line_inv [OF fe assms(2) line_inv_Nil] have "line_inv l1"
      by simp
    from documentLens_block_distinct [OF this] r show ?thesis
      by simp
  qed
qed


subsection \<open>The pass on a dirty document\<close>

lemma provideCodeLens_dirty:
  assumes "provideCodeLens this gitUri document symbol ll blame (lenses, st) = Inr (lenses', st')"
    and "documentIsDirty this"
    and "\<forall>l\<in>set lenses. lens_class l = GitRecentChangeCodeLens"
  shows "(\<forall>l\<in>set lenses'. lens_class l = GitRecentChangeCodeLens) \<and>
         (\<exists>more. lenses' = lenses @ more) \<and>
         (validateSymbolAndGetBlameRange document symbol ll \<noteq> None \<longrightarrow>
            (\<exists>l\<in>set lenses'. lens_class l = GitRecentChangeCodeLens \<and>
                               lens_line l = symbol_line symbol))"
proof (cases "validateSymbolAndGetBlameRange document symbol ll")
  case None
  with provideCodeLens_Inr [OF assms(1)] assms(3) show ?thesis by simp
next
  case (Some r)
  show ?thesis
  proof (cases "lenses \<noteq> [] \<and> lens_line (last lenses) = symbol_line symbol")
    case True
    with Some provideCodeLens_Inr [OF assms(1)] have e: "lenses' = lenses" by simp
    from True have "last lenses \<in> set lenses" by simp
    with True assms(3) e show ?thesis by auto
  next
    case False
    with Some provideCodeLens_Inr [OF assms(1)] assms(2) obtain x where
      "lenses' = lenses @ [x]"
      "is_symbol_lens GitRecentChangeCodeLens gitUri symbol r (length st) x"
      by auto
    with assms(3) show ?thesis
      by (auto simp add: is_symbol_lens_def lens_line_def symbol_line_def)
  qed
qed

lemma forEach_dirty:
  assumes "forEach_provideCodeLens this gitUri document ll blame symbols (lenses, st) =
             Inr (lenses', st')"
    and "documentIsDirty this"
    and "\<forall>l\<in>set lenses. lens_class l = GitRecentChangeCodeLens"
  shows "(\<forall>l\<in>set lenses'. lens_class l = GitRecentChangeCodeLens) \<and>
         (\<exists>more. lenses' = lenses @ more) \<and>
         (\<forall>s\<in>set symbols. validateSymbolAndGetBlameRange document s ll \<noteq> None \<longrightarrow>
            (\<exists>l\<in>set lenses'. lens_class l = GitRecentChangeCodeLens \<and>
                               lens_line l = symbol_line s))"
  using assms
proof (induction symbols arbitrary: lenses st)
  case Nil
  then show ?case by simp
next
  case (Cons s ss)
  from Cons.prems(1) obtain l1 st1 where
    step: "provideCodeLens this gitUri document s ll blame (lenses, st) = Inr (l1, st1)"
    and rest: "forEach_provideCodeLens this gitUri document ll blame ss (l1, st1) = Inr (lenses', st')"
    by (cases "provideCodeLens this gitUri document s ll blame (lenses, st)") auto
  note S = provideCodeLens_dirty [OF step Cons.prems(2) Cons.prems(3)]
  from S have a1: "\<forall>l\<in>set l1. lens_class l = GitRecentChangeCodeLens" by simp
  note R = Cons.IH [OF rest Cons.prems(2) a1]
  from S obtain m1 where m1: "l1 = lenses @ m1" by blast
  from R obtain m2 where m2: "lenses' = l1 @ m2" by blast
  have "\<exists>more. lenses' = lenses @ more"
    using m1 m2 by simp
  moreover have "validateSymbolAndGetBlameRange document s ll \<noteq> None \<longrightarrow>
            (\<exists>l\<in>set lenses'. lens_class l = GitRecentChangeCodeLens \<and>
                               lens_line l = symbol_line s)"
    using S m2 by auto
  ultimately show ?case using R by auto
qed

lemma documentLens_block_dirty:
  assumes "documentIsDirty this"
    and "\<forall>l\<in>set lenses. lens_class l = GitRecentChangeCodeLens"
    and "documentLens_block this gitUri document ll blame (lenses, st) = (lenses', st')"
  shows "(\<forall>l\<in>set lenses'. lens_class l = GitRecentChangeCodeLens) \<and>
         (\<exists>more. lenses' = lenses @ more) \<and>
         (wantsDocumentLens ll \<longrightarrow>
            (\<exists>l\<in>set lenses'. lens_class l = GitRecentChangeCodeLens \<and>
               line (start (lens_range l)) = 0 \<and> line (end_pos (lens_range l)) = 0))"
proof (cases "wantsDocumentLens ll \<and>
         find (\<lambda>l. line (start (lens_range l)) = 0 \<and> line (end_pos (lens_range l)) = 0)
           lenses = None")
  case False
  have "documentLens_block this gitUri document ll blame (lenses, st) = (lenses, st)"
    unfolding documentLens_block_eq by (rule if_not_P) (rule False)
  with assms(3) have e: "lenses' = lenses" by simp
  show ?thesis
  proof (cases "wantsDocumentLens ll")
    case True
    with False obtain l where
      "find (\<lambda>l. line (start (lens_range l)) = 0 \<and> line (end_pos (lens_range l)) = 0)
           lenses = Some l"
      by auto
    then have "l \<in> set lenses" "line (start (lens_range l)) = 0 \<and> line (end_pos (lens_range l)) = 0"
      by (auto simp add: find_Some_iff)
    with assms(2) e show ?thesis by auto
  next
    case F: False
    with assms(2) e show ?thesis by simp
  qed
next
  case True
  with assms(1,3) have
    "lenses' = lenses @ [new_CodeLens GitRecentChangeCodeLens (length st) gitUri SymbolKind_File
                     (wholeFileRange document) True
                     (new_Range4 0 0 0 (character (start (wholeFileRange document))))]"
    by (simp add: documentLens_block_eq)
  with assms(2) show ?thesis
    by (simp add: new_CodeLens_def new_Range4_lines)
qed


lemma document_only_no_symbol:
  assumes "length (locations ll) = 1" and "CodeLensLocations_Document \<in> set (locations ll)"
  shows "validateSymbolAndGetBlameRange document s ll = None"
proof -
  from assms have "locations ll = [CodeLensLocations_Document]"
    by (cases "locations ll") auto
  then show ?thesis
    by (cases "sym_kind s") (simp_all add: validateSymbolAndGetBlameRange_def kind_switch_def)
qed

lemma provideCodeLenses_dirty:
  assumes "isDirty document"
    and "snd (provideCodeLenses this document gitUri (Some b) symbols) = Inr (lenses, st)"
    and "blame_lines b \<noteq> []"
  shows "(\<forall>l\<in>set lenses. lens_class l = GitRecentChangeCodeLens) \<and>
         (\<forall>s\<in>set symbols.
            validateSymbolAndGetBlameRange document s (languageLocations_of (config this) document)
              \<noteq> None \<longrightarrow>
            (\<exists>l\<in>set lenses. lens_class l = GitRecentChangeCodeLens \<and>
                              lens_line l = symbol_line s)) \<and>
         (wantsDocumentLens (languageLocations_of (config this) document) \<longrightarrow>
            (\<exists>l\<in>set lenses. lens_class l = GitRecentChangeCodeLens \<and>
               line (start (lens_range l)) = 0 \<and> line (end_pos (lens_range l)) = 0))"
proof -
  let ?p = "this\<lparr>documentIsDirty := isDirty document\<rparr>"
  let ?ll = "languageLocations_of (config this) document"
  have d: "documentIsDirty ?p" using assms(1) by simp
  have e: "\<forall>l\<in>set ([] :: CodeLens list). lens_class l = GitRecentChangeCodeLens" by simp
  show ?thesis
  proof (cases "length (locations ?ll) = 1 \<and> CodeLensLocations_Document \<in> set (locations ?ll)")
    case True
    with assms(2,3) have r: "documentLens_block ?p gitUri document ?ll b ([], []) = (lenses, st)"
      by (simp add: provideCodeLenses_def Let_def)
    from True have "\<forall>s\<in>set symbols. validateSymbolAndGetBlameRange document s ?ll = None"
      by (simp add: document_only_no_symbol)
    with documentLens_block_dirty [OF d e r] show ?thesis
      by auto
  next
    case False
    with assms(2,3) obtain l1 st1 where
      fe: "forEach_provideCodeLens ?p gitUri document ?ll b symbols ([], []) = Inr (l1, st1)"
      and r: "documentLens_block ?p gitUri document ?ll b (l1, st1) = (lenses, st)"
      by (cases "forEach_provideCodeLens ?p gitUri document ?ll b symbols ([], [])")
         (auto simp add: provideCodeLenses_def Let_def split: if_splits)
    note F = forEach_dirty [OF fe d e]
    from F have a1: "\<forall>l\<in>set l1. lens_class l = GitRecentChangeCodeLens" by simp
    note D = documentLens_block_dirty [OF d a1 r]
    from D obtain more where m: "lenses = l1 @ more" by blast
    have "\<forall>s\<in>set symbols. validateSymbolAndGetBlameRange document s ?ll \<noteq> None \<longrightarrow>
            (\<exists>l\<in>set lenses. lens_class l = GitRecentChangeCodeLens \<and>
                              lens_line l = symbol_line s)"
      using F m by auto
    with D show ?thesis by blast
  qed
qed

lemma lineAt_ok:
  assumes "anchor_line_ok d s"
  shows "\<exists>ln. lineAt d (start (sym_range s)) = Inr ln \<and>
           0 < character (end_pos (text_range ln))"
  using assms
  by (simp add: anchor_line_ok_def lineAt_def symbol_line_def new_Range4_def new_Range_def
      isBefore_def)

lemma recentChange_block_returns:
  assumes "0 < character (end_pos (text_range ln))"
  shows "\<exists>fn sc ps'. recentChange_block this gitUri symbol blame r ln ps = Inr (fn, sc, ps') \<and>
           0 \<le> sc"
  using assms
  by (cases ps) (simp add: recentChange_block_def Let_def Functions_once_def new_Position_def)

lemma authors_block_returns:
  assumes "0 \<le> sc"
  shows "\<exists>ps'. authors_block this gitUri document symbol blame r ln fn sc ps = Inr ps'"
  using assms
  by (cases ps; cases fn)
     (simp_all add: authors_block_def Functions_once_def new_Position_def)

lemma provideCodeLens_returns:
  assumes "validateSymbolAndGetBlameRange document s ll \<noteq> None \<longrightarrow> anchor_line_ok document s"
  shows "\<exists>ps'. provideCodeLens this gitUri document s ll blame ps = Inr ps'"
proof (cases "validateSymbolAndGetBlameRange document s ll")
  case None
  then show ?thesis by (simp add: provideCodeLens_def)
next
  case (Some r)
  with assms have "anchor_line_ok document s" by simp
  from lineAt_ok [OF this] obtain ln where
    ln: "lineAt document (start (sym_range s)) = Inr ln"
    and c: "0 < character (end_pos (text_range ln))"
    by blast
  from recentChange_block_returns [OF c] obtain fn sc ps1 where
    rc: "recentChange_block this gitUri s blame r ln ps = Inr (fn, sc, ps1)" and sc: "0 \<le> sc"
    by blast
  from authors_block_returns [OF sc] obtain ps2 where
    "authors_block this gitUri document s blame r ln fn sc ps1 = Inr ps2"
    by blast
  with Some ln rc show ?thesis
    by (simp add: provideCodeLens_def)
qed

lemma forEach_returns:
  assumes "\<forall>s\<in>set symbols. validateSymbolAndGetBlameRange document s ll \<noteq> None \<longrightarrow>
             anchor_line_ok document s"
  shows "\<exists>ps'. forEach_provideCodeLens this gitUri document ll blame symbols ps = Inr ps'"
  using assms
proof (induction symbols arbitrary: ps)
  case Nil
  then show ?case by simp
next
  case (Cons s ss)
  from Cons.prems have "validateSymbolAndGetBlameRange document s ll \<noteq> None \<longrightarrow>
             anchor_line_ok document s"
    by simp
  from provideCodeLens_returns [OF this] obtain ps1 where
    "provideCodeLens this gitUri document s ll blame ps = Inr ps1"
    by blast
  moreover from Cons.prems have "\<forall>s\<in>set ss. validateSymbolAndGetBlameRange document s ll \<noteq> None \<longrightarrow>
             anchor_line_ok document s"
    by simp
  from Cons.IH [OF this] obtain ps2 where
    "forEach_provideCodeLens this gitUri document ll blame ss ps1 = Inr ps2"
    by blast
  ultimately show ?case by simp
qed

lemma provideCodeLenses_returns:
  assumes "\<forall>s\<in>set symbols.
             validateSymbolAndGetBlameRange document s
               (languageLocations_of (config this) document) \<noteq> None \<longrightarrow>
             anchor_line_ok document s"
  shows "\<exists>lenses st. provideCodeLenses this document gitUri blame symbols =
           (this\<lparr>documentIsDirty := isDirty document\<rparr>, Inr (lenses, st))"
proof -
  let ?p = "this\<lparr>documentIsDirty := isDirty document\<rparr>"
  let ?ll = "languageLocations_of (config this) document"
  show ?thesis
  proof (cases blame)
    case None
    then show ?thesis by (simp add: provideCodeLenses_def Let_def)
  next
    case (Some b)
    from forEach_returns [OF assms] obtain ps where
      "forEach_provideCodeLens ?p gitUri document ?ll b symbols ([], []) = Inr ps"
      by blast
    with Some show ?thesis
      by (cases "documentLens_block ?p gitUri document ?ll b ps";
          cases "documentLens_block ?p gitUri document ?ll b ([], [])")
         (simp add: provideCodeLenses_def Let_def)
  qed
qed

text \<open>
  C2. When the document is dirty, \<^verbatim>\<open>provideCodeLenses\<close> returns its lenses whenever every
  eligible symbol starts on a line of the document that is not empty, and the lenses it
  returns contain no authors lens, neither for a symbol nor for the whole document. When
  there is a blame, every eligible symbol has a recent-change lens anchored on the line it
  starts on: its own, or the one of the symbol it was dropped for.
\<close>

theorem dirty_document_lenses:
  assumes "isDirty document"
  shows "((\<forall>s\<in>set symbols.
             validateSymbolAndGetBlameRange document s
               (languageLocations_of (config this) document) \<noteq> None \<longrightarrow>
             anchor_line_ok document s) \<longrightarrow>
          (\<exists>lenses st. snd (provideCodeLenses this document gitUri blame symbols) =
             Inr (lenses, st))) \<and>
         (snd (provideCodeLenses this document gitUri blame symbols) = Inr (lenses, st) \<longrightarrow>
          (\<forall>l\<in>set lenses. lens_class l \<noteq> GitAuthorsCodeLens) \<and>
          ((case blame of None \<Rightarrow> False | Some b \<Rightarrow> blame_lines b \<noteq> []) \<longrightarrow>
           (\<forall>s\<in>set symbols.
              validateSymbolAndGetBlameRange document s
                (languageLocations_of (config this) document) \<noteq> None \<longrightarrow>
              (\<exists>l\<in>set lenses. lens_class l = GitRecentChangeCodeLens \<and>
                                lens_line l = symbol_line s))))"
proof (intro conjI impI)
  assume "\<forall>s\<in>set symbols.
             validateSymbolAndGetBlameRange document s
               (languageLocations_of (config this) document) \<noteq> None \<longrightarrow>
             anchor_line_ok document s"
  from provideCodeLenses_returns [OF this, of gitUri blame]
  show "\<exists>lenses st. snd (provideCodeLenses this document gitUri blame symbols) =
             Inr (lenses, st)"
    by auto
next
  assume r: "snd (provideCodeLenses this document gitUri blame symbols) = Inr (lenses, st)"
  show "\<forall>l\<in>set lenses. lens_class l \<noteq> GitAuthorsCodeLens"
  proof (cases "case blame of None \<Rightarrow> False | Some b \<Rightarrow> blame_lines b \<noteq> []")
    case False
    then have "snd (provideCodeLenses this document gitUri blame symbols) = Inr ([], [])"
      by (simp add: provideCodeLenses_def Let_def split: option.splits)
    with r show ?thesis by simp
  next
    case True
    then obtain b where b: "blame = Some b" "blame_lines b \<noteq> []"
      by (auto split: option.splits)
    from provideCodeLenses_dirty [OF assms r [unfolded b(1)] b(2)] show ?thesis
      by auto
  qed
next
  assume r: "snd (provideCodeLenses this document gitUri blame symbols) = Inr (lenses, st)"
    and "case blame of None \<Rightarrow> False | Some b \<Rightarrow> blame_lines b \<noteq> []"
  then obtain b where b: "blame = Some b" "blame_lines b \<noteq> []"
    by (auto split: option.splits)
  from provideCodeLenses_dirty [OF assms r [unfolded b(1)] b(2)]
  show "\<forall>s\<in>set symbols.
              validateSymbolAndGetBlameRange document s
                (languageLocations_of (config this) document) \<noteq> None \<longrightarrow>
              (\<exists>l\<in>set lenses. lens_class l = GitRecentChangeCodeLens \<and>
                                lens_line l = symbol_line s)"
    by blast
qed

lemma ex_dirty_pass:
  "snd (provideCodeLenses ex_provider ex_dirty_document ex_uri (Some ex_blame)
          [ex_symbol SymbolKind_Class 1 2]) =
   Inr ([ex_class_lens], [fresh_cell ex_blame ex_uri (new_Range4 1 0 2 1)])"
  by (simp add: pass_defs range_defs ex_defs ex_dirty_document_def ex_class_lens_def
      fresh_cell_def)

theorem dirty_document_lenses_witness:
  "isDirty ex_dirty_document \<and> authors_enabled (config ex_provider) \<and>
   anchor_line_ok ex_dirty_document (ex_symbol SymbolKind_Class 1 2) \<and>
   (\<exists>lenses st. snd (provideCodeLenses ex_provider ex_dirty_document ex_uri (Some ex_blame)
                       [ex_symbol SymbolKind_Class 1 2]) = Inr (lenses, st)) \<and>
   lens_class ex_class_lens \<noteq> GitAuthorsCodeLens \<and>
   (\<exists>l\<in>set [ex_class_lens]. lens_class l = GitRecentChangeCodeLens \<and>
      lens_line l = symbol_line (ex_symbol SymbolKind_Class 1 2))"
proof -
  have d: "isDirty ex_dirty_document"
    by (simp add: ex_dirty_document_def)
  have a: "authors_enabled (config ex_provider)"
    by (simp add: ex_provider_def ex_config_def)
  have b: "case Some ex_blame of None \<Rightarrow> False | Some b \<Rightarrow> blame_lines b \<noteq> []"
    by (simp add: ex_blame_def)
  have v: "validateSymbolAndGetBlameRange ex_dirty_document (ex_symbol SymbolKind_Class 1 2)
             (languageLocations_of (config ex_provider) ex_dirty_document) \<noteq> None"
    by (simp add: pass_defs ex_defs ex_dirty_document_def)
  have k: "anchor_line_ok ex_dirty_document (ex_symbol SymbolKind_Class 1 2)"
    by (simp add: anchor_line_ok_def symbol_line_def range_defs ex_defs ex_dirty_document_def)
  from dirty_document_lenses [OF d, THEN conjunct1, of "[ex_symbol SymbolKind_Class 1 2]"
      ex_provider ex_uri "Some ex_blame"] k
  have r: "\<exists>lenses st. snd (provideCodeLenses ex_provider ex_dirty_document ex_uri (Some ex_blame)
                       [ex_symbol SymbolKind_Class 1 2]) = Inr (lenses, st)"
    by simp
  from dirty_document_lenses [OF d, THEN conjunct2, THEN mp, OF ex_dirty_pass] b v
  have "lens_class ex_class_lens \<noteq> GitAuthorsCodeLens \<and>
   (\<exists>l\<in>set [ex_class_lens]. lens_class l = GitRecentChangeCodeLens \<and>
      lens_line l = symbol_line (ex_symbol SymbolKind_Class 1 2))"
    by simp
  with d a k r show ?thesis
    by blast
qed

text \<open>
  C10. When the document is dirty and recent changes are disabled in the configuration,
  the pass returns under the same condition, and it still gives every eligible symbol a
  recent-change lens on its line and, when the policy asks for a lens for the whole
  document, a recent-change lens on line 0; every lens of the pass resolves to the
  authors-only title for unsaved changes, with no command and without reading the blame.
\<close>

theorem dirty_document_recentChange_disabled:
  assumes "isDirty document"
    and "\<not> recentChange_enabled (config this)"
    and "blame_lines b \<noteq> []"
  shows "((\<forall>s\<in>set symbols.
             validateSymbolAndGetBlameRange document s
               (languageLocations_of (config this) document) \<noteq> None \<longrightarrow>
             anchor_line_ok document s) \<longrightarrow>
          (\<exists>lenses st. provideCodeLenses this document gitUri (Some b) symbols =
             (this\<lparr>documentIsDirty := True\<rparr>, Inr (lenses, st)))) \<and>
         (provideCodeLenses this document gitUri (Some b) symbols = (this', Inr (lenses, st)) \<longrightarrow>
          (\<forall>s\<in>set symbols.
             validateSymbolAndGetBlameRange document s
               (languageLocations_of (config this) document) \<noteq> None \<longrightarrow>
             (\<exists>l\<in>set lenses. lens_class l = GitRecentChangeCodeLens \<and>
                               lens_line l = symbol_line s)) \<and>
          (wantsDocumentLens (languageLocations_of (config this) document) \<longrightarrow>
             (\<exists>l\<in>set lenses. lens_class l = GitRecentChangeCodeLens \<and>
                line (start (lens_range l)) = 0 \<and> line (end_pos (lens_range l)) = 0)) \<and>
          (\<forall>l\<in>set lenses.
             resolveCodeLens g this' l st =
               Inr (l\<lparr>lens_command := Some
                      \<lparr>cmd_title = unsaved_authorsOnly (config this), cmd_command = None,
                       cmd_arguments = None\<rparr>\<rparr>, st)))"
proof (intro conjI impI)
  assume "\<forall>s\<in>set symbols.
             validateSymbolAndGetBlameRange document s
               (languageLocations_of (config this) document) \<noteq> None \<longrightarrow>
             anchor_line_ok document s"
  from provideCodeLenses_returns [OF this, of gitUri "Some b"] assms(1)
  show "\<exists>lenses st. provideCodeLenses this document gitUri (Some b) symbols =
             (this\<lparr>documentIsDirty := True\<rparr>, Inr (lenses, st))"
    by simp
next
  assume e: "provideCodeLenses this document gitUri (Some b) symbols = (this', Inr (lenses, st))"
  then have s: "snd (provideCodeLenses this document gitUri (Some b) symbols) = Inr (lenses, st)"
    by simp
  note P = provideCodeLenses_dirty [OF assms(1) s assms(3)]
  from P show "\<forall>s\<in>set symbols.
             validateSymbolAndGetBlameRange document s
               (languageLocations_of (config this) document) \<noteq> None \<longrightarrow>
             (\<exists>l\<in>set lenses. lens_class l = GitRecentChangeCodeLens \<and>
                               lens_line l = symbol_line s)"
    by blast
  from e have t: "this' = this\<lparr>documentIsDirty := isDirty document\<rparr>"
    by (simp add: provideCodeLenses_def Let_def)
  show "\<forall>l\<in>set lenses.
            resolveCodeLens g this' l st =
              Inr (l\<lparr>lens_command := Some
                     \<lparr>cmd_title = unsaved_authorsOnly (config this), cmd_command = None,
                      cmd_arguments = None\<rparr>\<rparr>, st)"
    using P t assms(1,2)
    by (simp add: resolveCodeLens_def resolveGitRecentChangeCodeLens_def set_command_def
        unsavedChanges_title_def)
next
  assume e: "provideCodeLenses this document gitUri (Some b) symbols = (this', Inr (lenses, st))"
    and w: "wantsDocumentLens (languageLocations_of (config this) document)"
  from e have s: "snd (provideCodeLenses this document gitUri (Some b) symbols) = Inr (lenses, st)"
    by simp
  from provideCodeLenses_dirty [OF assms(1) s assms(3)] w
  show "\<exists>l\<in>set lenses. lens_class l = GitRecentChangeCodeLens \<and>
                line (start (lens_range l)) = 0 \<and> line (end_pos (lens_range l)) = 0"
    by blast
qed

lemma ex_authorsOnly_pass:
  "provideCodeLenses ex_authorsOnly_provider ex_dirty_document ex_uri (Some ex_blame)
     [ex_symbol SymbolKind_Class 1 2] =
   (ex_authorsOnly_provider\<lparr>documentIsDirty := True\<rparr>,
    Inr ([ex_class_lens, ex_document_lens],
         [fresh_cell ex_blame ex_uri (new_Range4 1 0 2 1),
          fresh_cell ex_blame ex_uri (new_Range4 0 1 3 1)]))"
  by (simp add: pass_defs range_defs ex_defs ex_dirty_document_def ex_class_lens_def
      ex_document_lens_def ex_authorsOnly_provider_def fresh_cell_def Let_def)

theorem dirty_document_recentChange_disabled_witness:
  "isDirty ex_dirty_document \<and> \<not> recentChange_enabled (config ex_authorsOnly_provider) \<and>
   anchor_line_ok ex_dirty_document (ex_symbol SymbolKind_Class 1 2) \<and>
   (\<exists>lenses st. provideCodeLenses ex_authorsOnly_provider ex_dirty_document ex_uri
      (Some ex_blame) [ex_symbol SymbolKind_Class 1 2] =
      (ex_authorsOnly_provider\<lparr>documentIsDirty := True\<rparr>, Inr (lenses, st))) \<and>
   map lens_key [ex_class_lens, ex_document_lens] =
     [(GitRecentChangeCodeLens, 1), (GitRecentChangeCodeLens, 0)] \<and>
   resolveCodeLens ex_getBlameForRangeSync (ex_authorsOnly_provider\<lparr>documentIsDirty := True\<rparr>)
     ex_document_lens
     [fresh_cell ex_blame ex_uri (new_Range4 1 0 2 1),
      fresh_cell ex_blame ex_uri (new_Range4 0 1 3 1)] =
   Inr (ex_document_lens\<lparr>lens_command := Some
          \<lparr>cmd_title = ''authors'', cmd_command = None, cmd_arguments = None\<rparr>\<rparr>,
        [fresh_cell ex_blame ex_uri (new_Range4 1 0 2 1),
         fresh_cell ex_blame ex_uri (new_Range4 0 1 3 1)])"
proof -
  have d: "isDirty ex_dirty_document"
    by (simp add: ex_dirty_document_def)
  have n: "\<not> recentChange_enabled (config ex_authorsOnly_provider)"
    by (simp add: ex_authorsOnly_provider_def)
  have b: "blame_lines ex_blame \<noteq> []"
    by (simp add: ex_blame_def)
  have t: "unsaved_authorsOnly (config ex_authorsOnly_provider) = ''authors''"
    by (simp add: ex_authorsOnly_provider_def ex_config_def)
  have k: "map lens_key [ex_class_lens, ex_document_lens] =
     [(GitRecentChangeCodeLens, 1), (GitRecentChangeCodeLens, 0)]"
    by (simp add: ex_class_lens_def ex_document_lens_def)
  have a: "anchor_line_ok ex_dirty_document (ex_symbol SymbolKind_Class 1 2)"
    by (simp add: anchor_line_ok_def symbol_line_def range_defs ex_defs ex_dirty_document_def)
  from dirty_document_recentChange_disabled [OF d n b, THEN conjunct1,
      of "[ex_symbol SymbolKind_Class 1 2]" ex_uri] a
  have r: "\<exists>lenses st. provideCodeLenses ex_authorsOnly_provider ex_dirty_document ex_uri
      (Some ex_blame) [ex_symbol SymbolKind_Class 1 2] =
      (ex_authorsOnly_provider\<lparr>documentIsDirty := True\<rparr>, Inr (lenses, st))"
    by simp
  from dirty_document_recentChange_disabled [OF d n b, THEN conjunct2, THEN mp,
      OF ex_authorsOnly_pass, of ex_getBlameForRangeSync]
  have "resolveCodeLens ex_getBlameForRangeSync (ex_authorsOnly_provider\<lparr>documentIsDirty := True\<rparr>)
     ex_document_lens
     [fresh_cell ex_blame ex_uri (new_Range4 1 0 2 1),
      fresh_cell ex_blame ex_uri (new_Range4 0 1 3 1)] =
   Inr (ex_document_lens\<lparr>lens_command := Some
          \<lparr>cmd_title = unsaved_authorsOnly (config ex_authorsOnly_provider),
           cmd_command = None, cmd_arguments = None\<rparr>\<rparr>,
        [fresh_cell ex_blame ex_uri (new_Range4 1 0 2 1),
         fresh_cell ex_blame ex_uri (new_Range4 0 1 3 1)])"
    by simp
  with d n k a r show ?thesis
    unfolding t by blast
qed

subsection \<open>The blame of a range is computed once\<close>


lemma fresh_cell_simps [simp]:
  "once_value (fresh_cell b uri r) = None" "once_runs (fresh_cell b uri r) = 0"
  "once_blame (fresh_cell b uri r) = b" "once_uri (fresh_cell b uri r) = uri"
  "once_range (fresh_cell b uri r) = r"
  by (simp_all add: fresh_cell_def)

















end
